theory Spec2Isabelle
  imports Complex_Main
begin

section \<open>Errors raised by the Python code\<close>

text \<open>
  Every \<^verbatim>\<open>raise\<close> and failing \<^verbatim>\<open>assert\<close> of the source is a value: the
  exception class with a short form of its message. Floating-point numbers are modelled
  as real numbers, except where a claim is about NaN (type \<open>float\<close> below).
\<close>

datatype error =
    ValueError string
  | AssertionError string
  | ZeroDivisionError
  | IndexError
  | AxisError

text \<open>Exceptions propagate: the first error ends the computation.\<close>

definition and_then :: "error + 'a \<Rightarrow> ('a \<Rightarrow> error + 'b) \<Rightarrow> error + 'b" where
  "and_then r f = (case r of Inl e \<Rightarrow> Inl e | Inr x \<Rightarrow> f x)"

section \<open>Worker count selection (tools.number\_chunks)\<close>

text \<open>
  The source loop is
  \<^verbatim>\<open>jobs = workers; while sample_size % jobs: jobs -= 1\<close>
  on Python integers. The remainder by zero raises; for a negative start the loop need
  not stop, so the loop is a partial function and not returning is the value None.
  Python's remainder takes the sign of the divisor, as \<open>mod\<close> on \<open>int\<close> does.
\<close>

partial_function (option) number_chunks_loop :: "int \<Rightarrow> int \<Rightarrow> (error + int) option" where
  "number_chunks_loop sample_size jobs =
     (if jobs = 0 then Some (Inl ZeroDivisionError)
      else if sample_size mod jobs \<noteq> 0 then number_chunks_loop sample_size (jobs - 1)
      else Some (Inr jobs))"

definition number_chunks :: "int \<Rightarrow> int \<Rightarrow> (error + int) option" where
  "number_chunks sample_size workers =
     (case number_chunks_loop sample_size workers of
        None \<Rightarrow> None
      | Some (Inl e) \<Rightarrow> Some (Inl e)
      | Some (Inr jobs) \<Rightarrow> Some (Inr (if jobs \<noteq> 1 then jobs else workers)))"


section \<open>Arrays\<close>

text \<open>
  A numpy array is its shape and its elements in C order (last axis fastest).
\<close>

record 'a ndarray =
  shape :: "nat list"
  data :: "'a list"

definition wf :: "'a ndarray \<Rightarrow> bool" where
  "wf a \<longleftrightarrow> length (data a) = prod_list (shape a)"

definition ndim :: "'a ndarray \<Rightarrow> nat" where
  "ndim a = length (shape a)"

text \<open>A float that may be NaN, for the input checks of the constructor.\<close>

datatype float = NaN | Finite real

definition isnan_any :: "float ndarray \<Rightarrow> bool" where
  "isnan_any a = list_ex (\<lambda>x. x = NaN) (data a)"

section \<open>Terrain mask (tools.terrain\_mask)\<close>

text \<open>
  \<^verbatim>\<open>np.searchsorted(a, v)\<close> with the default \<^verbatim>\<open>side='left'\<close> on an ascending
  array: the first index whose element is not below \<open>v\<close>.
\<close>

definition searchsorted :: "real list \<Rightarrow> real \<Rightarrow> nat" where
  "searchsorted a v = length (takeWhile (\<lambda>x. x < v) a)"

definition clip :: "real \<Rightarrow> real \<Rightarrow> real \<Rightarrow> real" where
  "clip lo hi x = min hi (max lo x)"

text \<open>
  \<open>p\<close> is the one-dimensional pressure profile, \<open>ps\<close> the two-dimensional surface
  pressure (rows of latitude). For every column, \<^verbatim>\<open>beta[ij][level_m[ij]:] = 1.0\<close>
  sets the levels from \<open>level_m\<close> on to one. The low-pass filter of the smoothed case
  (an FFT convolution) is the parameter \<open>lowpass\<close>.
\<close>

definition terrain_mask ::
  "(real list list list \<Rightarrow> real list list list) \<Rightarrow> real list \<Rightarrow> real list list \<Rightarrow> bool
    \<Rightarrow> real list list list" where
  "terrain_mask lowpass p ps smooth =
     (let nlevels = length p;
          level_m = map (map (\<lambda>v. nlevels - searchsorted (sort p) v)) ps;
          beta = map (map (\<lambda>m. map (\<lambda>k. if m \<le> k then 1 else 0) [0..<nlevels])) level_m;
          beta' = (if smooth then lowpass beta else beta)
      in map (map (map (clip 0 1))) beta')"

section \<open>The array-based engine (AtmosphericEnergyBudget.EnergyBudget)\<close>

subsection \<open>Strings\<close>

text \<open>
  \<^verbatim>\<open>str.lower\<close> on ASCII letters and \<^verbatim>\<open>str.find\<close> for a single character
  (the first index, or \<open>-1\<close>).
\<close>

definition lower_char :: "char \<Rightarrow> char" where
  "lower_char c =
     (case map_of (zip ''ABCDEFGHIJKLMNOPQRSTUVWXYZ'' ''abcdefghijklmnopqrstuvwxyz'') c of
        None \<Rightarrow> c | Some d \<Rightarrow> d)"

definition lower :: "string \<Rightarrow> string" where
  "lower s = map lower_char s"

definition str_find :: "string \<Rightarrow> char \<Rightarrow> int" where
  "str_find s c = (if c \<in> set s then int (length (takeWhile (\<lambda>d. d \<noteq> c) s)) else - 1)"

text \<open>Python indexing of a sequence by an integer that may be negative.\<close>

definition getitem :: "'a list \<Rightarrow> int \<Rightarrow> error + 'a" where
  "getitem xs i =
     (if 0 \<le> i \<and> i < int (length xs) then Inr (xs ! nat i)
      else if i < 0 \<and> - int (length xs) \<le> i then Inr (xs ! nat (int (length xs) + i))
      else Inl IndexError)"

subsection \<open>Input checks of the constructor\<close>

record init_info =
  axes :: string
  nlon :: nat
  nlat :: nat
  nlevels :: nat
  samples :: nat
  leveltype :: string
  grid_type :: string

text \<open>
  The checks of \<^verbatim>\<open>EnergyBudget.__init__\<close> on its array arguments, in source order,
  up to the grid type: every \<^verbatim>\<open>raise\<close> and \<^verbatim>\<open>assert\<close> before the first call
  into the transform library. \<open>axes_arg\<close> is \<open>None\<close> or a string (any other type
  raises in the source and is excluded by the type here).
\<close>

definition init_checks ::
  "float ndarray \<Rightarrow> float ndarray \<Rightarrow> float ndarray \<Rightarrow> float ndarray \<Rightarrow> float ndarray
    \<Rightarrow> string option \<Rightarrow> string \<Rightarrow> string \<Rightarrow> error + init_info" where
  "init_checks u v w t p axes_arg level_type grid_type_arg =
     (if isnan_any u \<or> isnan_any v
        then Inl (ValueError ''Arrays u and v cannot contain missing values'')
      else let data_shape = shape u in
      if data_shape \<noteq> shape v then Inl (ValueError ''u and v must be the same shape'')
      else if shape t \<noteq> data_shape
        then Inl (ValueError ''Temperature must be the same shape as u and v'')
      else if shape w \<noteq> data_shape then Inl (ValueError ''w must be the same shape as u and v'')
      else let data_dim = ndim u in
      if data_dim < 3 then Inl (ValueError ''variables must be at least 3D'')
      else let axes0 = (case axes_arg of None \<Rightarrow> ''tzyx'' | Some a \<Rightarrow> a) in
      if length axes0 \<noteq> data_dim then Inl (ValueError ''Inconsistent number dimensions axes'')
      else let axs = lower axes0 in
      case (getitem data_shape (str_find axs CHR ''x''), getitem data_shape (str_find axs CHR ''y''),
            getitem data_shape (str_find axs CHR ''z'')) of
        (Inr lon, Inr lat, Inr lev) \<Rightarrow>
          (let smp = prod_list data_shape div (lon * lat * lev);
               lt = lower level_type;
               gt = lower grid_type_arg in
           if lt = ''pressure'' \<and> prod_list (shape p) \<noteq> lev
             then Inl (AssertionError ''Pressure must be a 1D array with size nlevels'')
           else if lt = ''height'' \<and> shape p \<noteq> shape u
             then Inl (AssertionError ''Pressure must have same shape as u'')
           else if lt \<noteq> ''pressure'' \<and> lt \<noteq> ''height''
             then Inl (ValueError ''Invalid level type'')
           else if gt \<noteq> ''regular'' \<and> gt \<noteq> ''gaussian''
             then Inl (ValueError ''Invalid grid type'')
           else Inr \<lparr>axes = axs, nlon = lon, nlat = lat, nlevels = lev, samples = smp,
                     leveltype = lt, grid_type = gt\<rparr>)
      | _ \<Rightarrow> Inl IndexError)"

subsection \<open>Spectral index set (tools.getspecindx)\<close>

text \<open>
  \<^verbatim>\<open>np.indices((ntrunc + 1, ntrunc + 1))\<close> flattened in C order gives the pairs
  \<open>(m, n)\<close> with \<open>m\<close> the row; the pairs with \<open>n > m - 1\<close> are kept, in that order.
\<close>

definition getspecindx :: "nat \<Rightarrow> nat list \<times> nat list" where
  "getspecindx ntrunc =
     (let pairs = concat (map (\<lambda>m. map (\<lambda>n. (m, n)) [0..<ntrunc + 1]) [0..<ntrunc + 1]);
          kept = filter (\<lambda>(m, n). int n > int m - 1) pairs
      in (map fst kept, map snd kept))"

subsection \<open>Engine state\<close>

text \<open>
  Modelled from the spec: \<^verbatim>\<open>kappa_from_deg\<close> lives in the module
  \<^verbatim>\<open>spectral_analysis\<close>, which is not among the sources; the specification gives
  \<open>\<kappa>(n) = sqrt(n(n+1))/R\<close>. The radius \<open>R\<close> is a parameter.
\<close>

definition kappa_from_deg :: "real \<Rightarrow> nat list \<Rightarrow> real list" where
  "kappa_from_deg earth_radius ls = map (\<lambda>n. sqrt (real n * (real n + 1)) / earth_radius) ls"

definition sign :: "real \<Rightarrow> int" where
  "sign x = (if x < 0 then - 1 else if x = 0 then 0 else 1)"

text \<open>
  The attributes of the engine that the operations below read. \<open>p_levels\<close> is
  \<^verbatim>\<open>self.p\<close>; \<open>vector_norm\<close> has shape \<open>(truncation + 1, 1, 1)\<close>.
\<close>

record energy_budget = init_info +
  p_levels :: "real list"
  direction :: int
  truncation :: nat
  zonal_wavenumber :: "nat list"
  total_wavenumber :: "nat list"
  ncoeffs :: nat
  degrees :: "nat list"
  kappa_h :: "real list"
  vector_norm :: "real ndarray"

text \<open>
  The part of \<^verbatim>\<open>EnergyBudget.__init__\<close> after the input checks that sets these
  attributes, in source order: the orientation and the sorted pressure levels, the
  truncation with its range check, the spectral indices, the degrees, the wavenumbers and
  the normalisation of the vector cross-spectrum with its degree-0 entry set to one.
  With no latitudes and no truncation given the degree arrays are empty and the
  assignment \<^verbatim>\<open>self.vector_norm[0] = 1.0\<close> raises.
\<close>

definition init_engine ::
  "real \<Rightarrow> init_info \<Rightarrow> real list \<Rightarrow> int option \<Rightarrow> error + energy_budget" where
  "init_engine earth_radius info p truncation_arg =
     (if p = [] then Inl IndexError
      else case (case truncation_arg of
                   None \<Rightarrow> if nlat info = 0 then Inl IndexError else Inr (nlat info - 1)
                 | Some tr \<Rightarrow>
                     if tr < 0 \<or> tr > int (nlat info) - 1
                       then Inl (ValueError ''Truncation must be between 0 and nlat - 1'')
                     else Inr (nat tr)) of
        Inl e \<Rightarrow> Inl e
      | Inr tr \<Rightarrow>
          (let ml = getspecindx tr;
               degs = [0..<tr + 1];
               kh = kappa_from_deg earth_radius degs
           in Inr (init_info.extend info
                \<lparr>p_levels = rev (sort p),
                 direction = sign (hd p - last p),
                 truncation = tr,
                 zonal_wavenumber = fst ml,
                 total_wavenumber = snd ml,
                 ncoeffs = length (snd ml),
                 degrees = degs,
                 kappa_h = kh,
                 vector_norm = \<lparr>shape = [tr + 1, 1, 1],
                                data = (map (\<lambda>k. k ^ 2) kh)[0 := 1]\<rparr>\<rparr>)))"

subsection \<open>Cross-spectrum\<close>

text \<open>The rows \<^verbatim>\<open>a[i]\<close> along the first axis, each flattened.\<close>

definition rows :: "'a ndarray \<Rightarrow> 'a list list" where
  "rows a = (let s = prod_list (tl (shape a))
             in map (\<lambda>i. take s (drop (i * s) (data a))) [0..<hd (shape a)])"

text \<open>\<^verbatim>\<open>.sum(axis=0)\<close> of a stack of rows of length \<open>s\<close>: zeros when the stack is empty.\<close>

definition sum_rows :: "nat \<Rightarrow> real list list \<Rightarrow> real list" where
  "sum_rows s rs = foldr (map2 (+)) rs (replicate s 0)"

definition squeeze :: "'a ndarray \<Rightarrow> 'a ndarray" where
  "squeeze a = a\<lparr>shape := filter (\<lambda>d. d \<noteq> 1) (shape a)\<rparr>"

text \<open>
  \<^verbatim>\<open>EnergyBudget.cross_spectrum(clm1, clm2=None, degrees=None, convention='power')\<close>.
  The first axis of \<open>clm1\<close> is the coefficient index, the other axes are samples. The
  weights \<^verbatim>\<open>np.where(ms == 0, 1.0, 2.0)\<close> multiply along the first axis; when that axis
  has length one and the index arrays are longer, numpy repeats the single row, and any
  other length mismatch raises. A constructed engine always has \<^verbatim>\<open>self.degrees\<close>.
\<close>

definition cross_spectrum ::
  "energy_budget \<Rightarrow> complex ndarray \<Rightarrow> complex ndarray option \<Rightarrow> int list option \<Rightarrow> string
    \<Rightarrow> error + real ndarray" where
  "cross_spectrum self clm1 clm2 degrees_arg convention =
     (if shape clm1 = [] then Inl IndexError
      else let sample_shape = tl (shape clm1); coeffs_size = hd (shape clm1) in
      case (case degrees_arg of
              None \<Rightarrow> Inr (map int (degrees self))
            | Some ds \<Rightarrow>
                if length ds > nlat self
                  then Inl (ValueError ''If given, degrees must be a 1D array of length <= nlat.'')
                else Inr ds) of
        Inl e \<Rightarrow> Inl e
      | Inr degs \<Rightarrow>
      if convention \<noteq> ''energy'' \<and> convention \<noteq> ''power''
        then Inl (ValueError ''Parameter convention must be one of [energy, power].'')
      else
      case (case clm2 of
              None \<Rightarrow> Inr clm1
            | Some c2 \<Rightarrow>
                if shape c2 = shape clm1 then Inr c2
                else Inl (AssertionError ''Arrays clm1 and clm2 must have the same shape.'')) of
        Inl e \<Rightarrow> Inl e
      | Inr other \<Rightarrow>
          (let clm_sqd = \<lparr>shape = shape clm1,
                          data = map2 (\<lambda>a b. Re (a * cnj b)) (data clm1) (data other)\<rparr>;
               ls = total_wavenumber self;
               ms = zonal_wavenumber self;
               weights = map (\<lambda>m. if m = 0 then 1 else 2) ms in
           if coeffs_size \<noteq> length ms \<and> coeffs_size \<noteq> 1
             then Inl (ValueError ''operands could not be broadcast together'')
           else
           (let stack = (if coeffs_size = length ms then rows clm_sqd
                         else replicate (length ms) (hd (rows clm_sqd)));
                weighted = map2 (\<lambda>w row. map (\<lambda>x. w * x) row) weights stack;
                spectrum = map (\<lambda>degree.
                    sum_rows (prod_list sample_shape)
                      (map snd (filter (\<lambda>((m, l), row). int m \<le> degree \<and> int l = degree)
                                  (zip (zip ms ls) weighted)))) degs;
                halved = map (map (\<lambda>x. x / 2)) spectrum;
                scaled = (if lower convention = ''energy''
                          then map (map (\<lambda>x. x * (4 * pi))) halved else halved)
            in Inr (squeeze \<lparr>shape = length degs # sample_shape, data = concat scaled\<rparr>))))"

subsection \<open>Index arithmetic and broadcasting\<close>

text \<open>
  The multi-index of a flat C-order position (\<^verbatim>\<open>np.unravel_index\<close>) and back
  (\<^verbatim>\<open>np.ravel_multi_index\<close>).
\<close>

fun unravel :: "nat list \<Rightarrow> nat \<Rightarrow> nat list" where
  "unravel [] k = []"
| "unravel (d # ds) k = (k div prod_list ds) # unravel ds (k mod prod_list ds)"

fun ravel :: "nat list \<Rightarrow> nat list \<Rightarrow> nat" where
  "ravel (d # ds) (i # is) = i * prod_list ds + ravel ds is"
| "ravel ds is = 0"

text \<open>
  numpy's broadcasting of two shapes, aligned at the last axis: two lengths agree when
  they are equal or one of them is one. \<open>broadcast_dims\<close> works on the reversed shapes.
\<close>

fun broadcast_dims :: "nat list \<Rightarrow> nat list \<Rightarrow> nat list option" where
  "broadcast_dims [] ys = Some ys"
| "broadcast_dims (x # xs) [] = Some (x # xs)"
| "broadcast_dims (x # xs) (y # ys) =
     (if x = y \<or> y = 1 then map_option (\<lambda>r. x # r) (broadcast_dims xs ys)
      else if x = 1 then map_option (\<lambda>r. y # r) (broadcast_dims xs ys)
      else None)"

definition broadcast_shape :: "nat list \<Rightarrow> nat list \<Rightarrow> nat list option" where
  "broadcast_shape s t = map_option rev (broadcast_dims (rev s) (rev t))"

text \<open>
  The flat position in an operand of shape \<open>s\<close> that supplies position \<open>k\<close> of the
  result of shape \<open>r\<close>: leading result axes are dropped and an axis of length one is
  read at index 0.
\<close>

definition broadcast_index :: "nat list \<Rightarrow> nat list \<Rightarrow> nat \<Rightarrow> nat" where
  "broadcast_index s r k =
     ravel s (map2 (\<lambda>d i. if d = 1 then 0 else i) s (drop (length r - length s) (unravel r k)))"

definition elementwise ::
  "('a \<Rightarrow> 'b \<Rightarrow> 'c) \<Rightarrow> 'a ndarray \<Rightarrow> 'b ndarray \<Rightarrow> error + 'c ndarray" where
  "elementwise f a b =
     (case broadcast_shape (shape a) (shape b) of
        None \<Rightarrow> Inl (ValueError ''operands could not be broadcast together'')
      | Some r \<Rightarrow>
          Inr \<lparr>shape = r,
               data = map (\<lambda>k. f (data a ! broadcast_index (shape a) r k)
                                  (data b ! broadcast_index (shape b) r k))
                        [0..<prod_list r]\<rparr>)"

definition nd_map :: "('a \<Rightarrow> 'b) \<Rightarrow> 'a ndarray \<Rightarrow> 'b ndarray" where
  "nd_map f a = \<lparr>shape = shape a, data = map f (data a)\<rparr>"

subsection \<open>Vector cross-spectrum\<close>

text \<open>
  \<^verbatim>\<open>EnergyBudget._vector_spectra\<close>. The transform
  \<^verbatim>\<open>self._compute_rotdiv\<close> (vorticity and divergence coefficients of a vector
  field, computed by the spherical-harmonics library) is the parameter \<open>rotdiv\<close>; the
  type of vector fields is left open.
\<close>

definition vector_spectra ::
  "('v \<Rightarrow> complex ndarray \<times> complex ndarray) \<Rightarrow> energy_budget \<Rightarrow> 'v \<Rightarrow> 'v option
    \<Rightarrow> error + real ndarray" where
  "vector_spectra rotdiv self vector_1 vector_2 =
     (let asc = rotdiv vector_1;
          bsc = map_option rotdiv vector_2
      in case cross_spectrum self (fst asc) (map_option fst bsc) None ''power'' of
           Inl e \<Rightarrow> Inl e
         | Inr rot_part \<Rightarrow>
             (case cross_spectrum self (snd asc) (map_option snd bsc) None ''power'' of
                Inl e \<Rightarrow> Inl e
              | Inr div_part \<Rightarrow>
                  (case elementwise (+) rot_part div_part of
                     Inl e \<Rightarrow> Inl e
                   | Inr spectrum \<Rightarrow> elementwise (/) spectrum (vector_norm self))))"

subsection \<open>Vertical integration\<close>

text \<open>
  \<^verbatim>\<open>scipy.integrate.simpson\<close> and the constant \<^verbatim>\<open>cn.g\<close> are outside the
  repository and are parameters. The scalar is one column along the vertical axis; the
  pressure range is \<open>None\<close> or its two limits.
\<close>

definition vertical_levels :: "real list \<Rightarrow> real \<Rightarrow> real \<Rightarrow> nat list" where
  "vertical_levels pressure lo hi =
     filter (\<lambda>k. (lo \<le> pressure ! k \<and> pressure ! k \<le> hi)
                 \<and> (pressure ! k \<noteq> hd pressure \<and> pressure ! k \<noteq> last pressure))
       [0..<length pressure]"

definition vertical_integration ::
  "(real list \<Rightarrow> real list \<Rightarrow> error + real) \<Rightarrow> real \<Rightarrow> energy_budget \<Rightarrow> real list
    \<Rightarrow> (real \<times> real) option \<Rightarrow> error + real" where
  "vertical_integration simpson g self scalar pressure_range =
     (if p_levels self = [] then Inl IndexError
      else case (case pressure_range of
                   None \<Rightarrow> Inr (hd (p_levels self), last (p_levels self))
                 | Some (a, b) \<Rightarrow>
                     if a \<noteq> b then Inr (a, b)
                     else Inl (AssertionError ''Inconsistent pressure levels for vertical integration.'')) of
        Inl e \<Rightarrow> Inl e
      | Inr (a, b) \<Rightarrow>
          (let lo = min a b; hi = max a b;
               pressure = p_levels self;
               level_mask = vertical_levels pressure lo hi in
           if \<exists>k \<in> set level_mask. length scalar \<le> k then Inl IndexError
           else case simpson (map (\<lambda>k. scalar ! k) level_mask) (map (\<lambda>k. pressure ! k) level_mask) of
                  Inl e \<Rightarrow> Inl e
                | Inr integrated_scalar \<Rightarrow>
                    Inr (of_int (direction self) * integrated_scalar / g)))"

text \<open>An engine on a one-by-one grid with four pressure levels, for the examples.\<close>

definition example_info :: init_info where
  "example_info = \<lparr>axes = ''zyx'', nlon = 1, nlat = 2, nlevels = 4, samples = 1,
                    leveltype = ''pressure'', grid_type = ''gaussian''\<rparr>"

section \<open>Dimension packing (tools.prepare\_data, tools.recover\_data)\<close>

subsection \<open>The numpy operations used\<close>

text \<open>
  \<^verbatim>\<open>normalize_axis_tuple\<close>: every axis is brought into \<open>0..ndim-1\<close> (negative
  axes count from the end); an axis out of range and a repeated axis raise.
\<close>

definition normalize_axis_index :: "nat \<Rightarrow> int \<Rightarrow> error + nat" where
  "normalize_axis_index n ax =
     (if - int n \<le> ax \<and> ax < int n then Inr (nat (if ax < 0 then ax + int n else ax))
      else Inl AxisError)"

fun normalize_axes :: "nat \<Rightarrow> int list \<Rightarrow> error + nat list" where
  "normalize_axes n [] = Inr []"
| "normalize_axes n (ax # rest) =
     and_then (normalize_axis_index n ax)
       (\<lambda>a. and_then (normalize_axes n rest) (\<lambda>as. Inr (a # as)))"

definition normalize_axis_tuple :: "nat \<Rightarrow> int list \<Rightarrow> error + nat list" where
  "normalize_axis_tuple n axs =
     and_then (normalize_axes n axs)
       (\<lambda>as. if distinct as then Inr as else Inl (ValueError ''repeated axis''))"

text \<open>\<^verbatim>\<open>list.insert(i, x)\<close> for \<open>i \<ge> 0\<close>: beyond the end it appends.\<close>

definition list_insert :: "nat \<Rightarrow> 'a \<Rightarrow> 'a list \<Rightarrow> 'a list" where
  "list_insert i x xs = take i xs @ x # drop i xs"

text \<open>
  The permutation that \<^verbatim>\<open>np.moveaxis\<close> hands to \<^verbatim>\<open>transpose\<close>: the axes that
  do not move, in order, with every source inserted at its destination, destinations
  ascending (\<^verbatim>\<open>for dest, src in sorted(zip(destination, source))\<close>).
\<close>

definition moveaxis_order :: "nat \<Rightarrow> nat list \<Rightarrow> nat list \<Rightarrow> nat list" where
  "moveaxis_order n source destination =
     foldl (\<lambda>order (dest, src). list_insert dest src order)
       (filter (\<lambda>a. a \<notin> set source) [0..<n])
       (sort_key fst (zip destination source))"

text \<open>
  \<^verbatim>\<open>a.transpose(order)\<close>: axis \<open>k\<close> of the result is axis \<open>order ! k\<close> of \<open>a\<close>.
  The element at a multi-index of the result is the element of \<open>a\<close> at the multi-index
  that carries, on axis \<open>order ! k\<close>, the \<open>k\<close>-th component.
\<close>

definition index_of :: "nat list \<Rightarrow> nat \<Rightarrow> nat" where
  "index_of order ax = length (takeWhile (\<lambda>a. a \<noteq> ax) order)"

definition source_index :: "nat list \<Rightarrow> nat list \<Rightarrow> nat list" where
  "source_index order idx = map (\<lambda>ax. idx ! index_of order ax) [0..<length order]"

definition transpose_axes :: "'a ndarray \<Rightarrow> nat list \<Rightarrow> 'a ndarray" where
  "transpose_axes a order =
     (let new_shape = map (\<lambda>ax. shape a ! ax) order
      in \<lparr>shape = new_shape,
          data = map (\<lambda>k. data a ! ravel (shape a) (source_index order (unravel new_shape k)))
                   [0..<prod_list new_shape]\<rparr>)"

definition moveaxis :: "'a ndarray \<Rightarrow> int list \<Rightarrow> int list \<Rightarrow> error + 'a ndarray" where
  "moveaxis a source destination =
     and_then (normalize_axis_tuple (ndim a) source)
       (\<lambda>src. and_then (normalize_axis_tuple (ndim a) destination)
          (\<lambda>dst. if length src \<noteq> length dst
                   then Inl (ValueError ''source and destination must have the same number of elements'')
                 else Inr (transpose_axes a (moveaxis_order (ndim a) src dst))))"

text \<open>
  \<^verbatim>\<open>a.reshape(newshape)\<close> in C order keeps the flat elements. One entry of the new
  shape may be \<open>-1\<close>; it is inferred from the size, which must be a multiple of the
  product of the other entries, and that product must not be zero.
\<close>

definition reshape :: "'a ndarray \<Rightarrow> int list \<Rightarrow> error + 'a ndarray" where
  "reshape a newshape =
     (let size = prod_list (shape a);
          known = prod_list (map nat (filter (\<lambda>d. 0 \<le> d) newshape))
      in if (\<exists>d \<in> set newshape. d < - 1) then Inl (ValueError ''negative dimensions not allowed'')
         else if length (filter (\<lambda>d. d = - 1) newshape) > 1
           then Inl (ValueError ''can only specify one unknown dimension'')
         else if - 1 \<in> set newshape then
           (if known = 0 \<or> size mod known \<noteq> 0 then Inl (ValueError ''cannot reshape array'')
            else Inr (a\<lparr>shape := map (\<lambda>d. if d = - 1 then size div known else nat d) newshape\<rparr>))
         else if known \<noteq> size then Inl (ValueError ''cannot reshape array'')
         else Inr (a\<lparr>shape := map nat newshape\<rparr>))"

subsection \<open>Packing and recovering\<close>

record info_dict =
  interm_shape :: "nat list"
  origin_order :: string
  output_order :: string

definition prepare_data :: "'a ndarray \<Rightarrow> string \<Rightarrow> error + ('a ndarray \<times> info_dict)" where
  "prepare_data dat dim_order =
     (if ndim dat < 3 then Inl (ValueError ''Input fields must be at least 3D'')
      else if length dim_order > ndim dat
        then Inl (ValueError ''Inconsistent number dimensions'')
      else if CHR ''x'' \<notin> set dim_order \<or> CHR ''y'' \<notin> set dim_order
        then Inl (ValueError ''A latitude-longitude grid is required'')
      else if CHR ''z'' \<notin> set dim_order then Inl (ValueError ''A vertical grid is required'')
      else
        (let spatial_dims = map (str_find (lower dim_order)) ''yxz'' in
         and_then (moveaxis dat spatial_dims [0, 1, - 1])
           (\<lambda>moved.
              (let inter_shape = shape moved in
               and_then (reshape moved (map int (take 2 inter_shape) @ [- 1, int (last inter_shape)]))
                 (\<lambda>packed.
                    (let out_order = ''yx('' @ filter (\<lambda>c. c \<noteq> CHR ''x'' \<and> c \<noteq> CHR ''y'' \<and> c \<noteq> CHR ''z'')
                                                   dim_order @ '')z''
                     in Inr (packed, \<lparr>interm_shape = inter_shape, origin_order = dim_order,
                                       output_order = out_order\<rparr>)))))))"

definition recover_data :: "'a ndarray \<Rightarrow> info_dict \<Rightarrow> error + 'a ndarray" where
  "recover_data dat info =
     and_then (reshape dat (map int (interm_shape info)))
       (\<lambda>restored.
          (let spatial_dims = map (str_find (origin_order info)) ''yxz''
           in moveaxis restored [0, 1, - 1] spatial_dims))"

section \<open>The dataset-based engine (seba.EnergyBudget)\<close>

subsection \<open>Collaborators outside the sources\<close>

text \<open>
  The spherical-harmonics object, the Fortran helper \<^verbatim>\<open>numeric_tools\<close> and the
  helpers of the newer \<^verbatim>\<open>tools\<close> module are not among the sources. They are
  parameters: \<open>compute_rotdiv\<close> is \<^verbatim>\<open>self._compute_rotdiv\<close> (vorticity and
  divergence coefficients of a vector field), \<open>integrate_order\<close> the Fortran
  accumulation over the zonal wavenumber, \<open>rotate_vector\<close> the helper of that name,
  \<open>stimes\<close> and \<open>vtimes\<close> numpy's product of a scalar field, respectively a vector
  field, with a vector field, and \<open>vshape\<close> the shape of a vector field. The types of
  scalar fields \<open>'s\<close> and vector fields \<open>'v\<close> are left open.
\<close>

record ('s, 'v) collaborators =
  compute_rotdiv :: "'v \<Rightarrow> complex ndarray \<times> complex ndarray"
  integrate_order :: "complex ndarray \<Rightarrow> nat \<Rightarrow> complex ndarray"
  rotate_vector :: "'v \<Rightarrow> 'v"
  stimes :: "'s \<Rightarrow> 'v \<Rightarrow> 'v"
  vtimes :: "'v \<Rightarrow> 'v \<Rightarrow> 'v"
  vshape :: "'v \<Rightarrow> nat list"

subsection \<open>Engine state\<close>

text \<open>
  The attributes read below. Names shared with the array-based engine carry the prefix
  \<open>sb\<close>; \<open>sb_norm\<close> is \<^verbatim>\<open>self.norm\<close>.
\<close>

record ('s, 'v) seba_budget =
  sb_nlat :: nat
  sb_nlon :: nat
  sb_nlevels :: nat
  sb_samples :: nat
  sb_truncation :: nat
  weights :: "real list"
  beta :: "real ndarray"
  beta_fraction :: "real ndarray"
  sb_norm :: "real ndarray"
  omega :: 's
  vrt :: 's
  wind :: 'v
  wind_shear :: 'v
  wind_div :: 'v
  wind_rot :: 'v
  fc :: 'v

subsection \<open>Normalisation of the vector cross-spectrum\<close>

text \<open>
  Modelled from the spec: \<^verbatim>\<open>broadcast_1dto\<close> lives in the newer
  \<^verbatim>\<open>tools\<close> module, which is not among the sources; it repeats the per-degree
  values \<open>n(n+1)/r\<^sup>2\<close> of the specification over the sample and level axes of the
  target shape.
\<close>

definition broadcast_1dto :: "real list \<Rightarrow> nat list \<Rightarrow> real ndarray" where
  "broadcast_1dto xs target =
     \<lparr>shape = target, data = concat (map (\<lambda>x. replicate (prod_list (tl target)) x) xs)\<rparr>"

text \<open>
  The lines of \<^verbatim>\<open>__init__\<close> that set \<^verbatim>\<open>self.norm\<close>:
  \<^verbatim>\<open>broadcast_1dto(self.kappa_h ** 2, sp_shape).clip(cn.epsilon, None)\<close>. The
  constant \<^verbatim>\<open>cn.epsilon\<close> and the earth radius are parameters.
\<close>

definition init_norm ::
  "real \<Rightarrow> real \<Rightarrow> ('s, 'v) seba_budget \<Rightarrow> ('s, 'v) seba_budget" where
  "init_norm epsilon earth_radius self =
     (let degs = [0..<sb_truncation self + 1];
          kh = kappa_from_deg earth_radius degs;
          sp_shape = [sb_truncation self + 1, sb_samples self, sb_nlevels self]
      in self\<lparr>sb_norm := nd_map (\<lambda>x. max epsilon x)
                             (broadcast_1dto (map (\<lambda>k. k ^ 2) kh) sp_shape)\<rparr>)"

subsection \<open>Mask fraction\<close>

text \<open>
  \<^verbatim>\<open>representative_mean(scalar)\<close> with the default weights and latitude axis 0,
  for an array without masked entries (as \<^verbatim>\<open>self.beta\<close> is): the weighted average
  over latitude, \<^verbatim>\<open>np.ma.average(scalar, weights, axis=0)\<close>, then the mean over
  longitude. An array without axes has no axis 0 to normalise; with a single axis the
  latitude length is tested first and the longitude length cannot be read.
\<close>

definition representative_mean ::
  "('s, 'v) seba_budget \<Rightarrow> real ndarray \<Rightarrow> error + real ndarray" where
  "representative_mean self scalar =
     (case shape scalar of
        [] \<Rightarrow> Inl AxisError
      | [lat] \<Rightarrow>
          if lat \<noteq> sb_nlat self then Inl (ValueError ''Scalar size along axis must be nlat.'')
          else Inl IndexError
      | lat # lon # rest \<Rightarrow>
          if lat \<noteq> sb_nlat self then Inl (ValueError ''Scalar size along axis must be nlat.'')
          else if lon \<noteq> sb_nlon self
            then Inl (ValueError ''Dimensions nlat and nlon must be in consecutive order.'')
          else if length (weights self) \<noteq> lat
            then Inl (ValueError ''Length of weights not compatible with specified axis.'')
          else
            (let r = prod_list rest;
                 scalar_average = (\<lambda>j k.
                    (\<Sum>i\<leftarrow>[0..<lat]. weights self ! i * data scalar ! ((i * lon + j) * r + k))
                      / sum_list (weights self))
             in Inr \<lparr>shape = rest,
                     data = map (\<lambda>k. (\<Sum>j\<leftarrow>[0..<lon]. scalar_average j k) / real lon) [0..<r]\<rparr>))"

text \<open>
  The lines of \<^verbatim>\<open>__init__\<close> that set \<^verbatim>\<open>self.beta\<close> and
  \<^verbatim>\<open>self.beta_fraction\<close> from the data mask.
\<close>

definition init_beta ::
  "('s, 'v) seba_budget \<Rightarrow> bool ndarray \<Rightarrow> error + ('s, 'v) seba_budget" where
  "init_beta self data_mask =
     (let b = nd_map (\<lambda>m. if m then 0 else 1) data_mask
      in and_then (representative_mean self b)
           (\<lambda>fraction. Inr (self\<lparr>beta := b, beta_fraction := fraction\<rparr>)))"

subsection \<open>Cross-spectra\<close>

text \<open>
  \<^verbatim>\<open>accumulate_order(cs_lm)\<close> with the default axis 0: the coefficients are packed
  to two dimensions, handed to the Fortran routine with \<open>truncation + 1\<close>, and its
  result is reshaped to \<open>(truncation + 1,) + sample shape\<close>.
\<close>

definition accumulate_order ::
  "('s, 'v) collaborators \<Rightarrow> ('s, 'v) seba_budget \<Rightarrow> complex ndarray \<Rightarrow> error + complex ndarray" where
  "accumulate_order ext self cs_lm =
     (case shape cs_lm of
        [] \<Rightarrow> Inl IndexError
      | nml_shape # clm_shape \<Rightarrow>
          (let ntrunc = sb_truncation self + 1 in
           if nml_shape = 0 \<or> prod_list (shape cs_lm) mod nml_shape \<noteq> 0
             then Inl (ValueError ''cannot reshape array'')
           else
             (let packed = \<lparr>shape = [nml_shape, prod_list (shape cs_lm) div nml_shape],
                              data = data cs_lm\<rparr>;
                  spectrum = integrate_order ext packed ntrunc
              in if prod_list (shape spectrum) \<noteq> ntrunc * prod_list clm_shape
                   then Inl (ValueError ''cannot reshape array'')
                 else Inr \<lparr>shape = ntrunc # clm_shape, data = data spectrum\<rparr>)))"

definition sb_cross_spectrum ::
  "('s, 'v) collaborators \<Rightarrow> ('s, 'v) seba_budget \<Rightarrow> complex ndarray \<Rightarrow> complex ndarray option
    \<Rightarrow> bool \<Rightarrow> error + real ndarray" where
  "sb_cross_spectrum ext self clm1 clm2 accumulate =
     and_then (case clm2 of
                 None \<Rightarrow> Inr clm1
               | Some c2 \<Rightarrow>
                   if shape c2 = shape clm1 then Inr c2
                   else Inl (AssertionError ''Arrays clm1 and clm2 must have the same shape.''))
       (\<lambda>other.
          and_then (let spectrum = \<lparr>shape = shape clm1,
                                    data = map2 (\<lambda>a b. a * cnj b) (data clm1) (data other)\<rparr>
                    in if accumulate then accumulate_order ext self spectrum else Inr spectrum)
            (\<lambda>spectrum. elementwise (/) (nd_map Re spectrum) (beta_fraction self)))"

text \<open>An in-place update \<^verbatim>\<open>a += b\<close>, \<^verbatim>\<open>a -= b\<close>: the result must keep the shape of \<open>a\<close>.\<close>

definition inplace ::
  "(real \<Rightarrow> real \<Rightarrow> real) \<Rightarrow> real ndarray \<Rightarrow> real ndarray \<Rightarrow> error + real ndarray" where
  "inplace f a b =
     and_then (elementwise f a b)
       (\<lambda>r. if shape r = shape a then Inr r
             else Inl (ValueError ''non-broadcastable output operand''))"

definition sb_vector_spectra ::
  "('s, 'v) collaborators \<Rightarrow> ('s, 'v) seba_budget \<Rightarrow> 'v \<Rightarrow> 'v option \<Rightarrow> error + real ndarray" where
  "sb_vector_spectra ext self vector_1 vector_2 =
     and_then (case vector_2 of
                 None \<Rightarrow> Inr (None, None)
               | Some v2 \<Rightarrow>
                   if vshape ext v2 = vshape ext vector_1
                     then Inr (Some (fst (compute_rotdiv ext v2)), Some (snd (compute_rotdiv ext v2)))
                   else Inl (AssertionError ''Rank mismatch between vector_1 and vector_2.''))
       (\<lambda>(rot_2, div_2).
          and_then (sb_cross_spectrum ext self (fst (compute_rotdiv ext vector_1)) rot_2 True)
            (\<lambda>spectrum.
               and_then (sb_cross_spectrum ext self (snd (compute_rotdiv ext vector_1)) div_2 True)
                 (\<lambda>second.
                    and_then (inplace (+) spectrum second)
                      (\<lambda>summed. elementwise (/) summed (sb_norm self)))))"

subsection \<open>Conversion from divergent to rotational kinetic energy\<close>

definition conversion_dke_rke_vertical ::
  "('s, 'v) collaborators \<Rightarrow> ('s, 'v) seba_budget \<Rightarrow> error + real ndarray" where
  "conversion_dke_rke_vertical ext self =
     and_then (sb_vector_spectra ext self (wind_shear self)
                 (Some (stimes ext (omega self) (wind_rot self))))
       (\<lambda>first.
          and_then (sb_vector_spectra ext self (wind_rot self)
                      (Some (stimes ext (omega self) (wind_shear self))))
            (\<lambda>second.
               and_then (inplace (-) (nd_map uminus first) second)
                 (\<lambda>dke_rke_omega. Inr (nd_map (\<lambda>x. x / 2) dke_rke_omega))))"

definition conversion_dke_rke_coriolis ::
  "('s, 'v) collaborators \<Rightarrow> ('s, 'v) seba_budget \<Rightarrow> error + real ndarray" where
  "conversion_dke_rke_coriolis ext self =
     and_then (sb_vector_spectra ext self (wind_div self)
                 (Some (vtimes ext (fc self) (rotate_vector ext (wind_rot self)))))
       (\<lambda>div_term.
          and_then (sb_vector_spectra ext self (wind_rot self)
                      (Some (vtimes ext (fc self) (rotate_vector ext (wind_div self)))))
            (\<lambda>rot_term.
               and_then (elementwise (-) div_term rot_term)
                 (\<lambda>difference. Inr (nd_map (\<lambda>x. x / 2) difference))))"

definition conversion_dke_rke_vorticity ::
  "('s, 'v) collaborators \<Rightarrow> ('s, 'v) seba_budget \<Rightarrow> error + real ndarray" where
  "conversion_dke_rke_vorticity ext self =
     and_then (sb_vector_spectra ext self (wind_div self)
                 (Some (stimes ext (vrt self) (rotate_vector ext (wind_rot self)))))
       (\<lambda>div_term.
          and_then (sb_vector_spectra ext self (wind_rot self)
                      (Some (stimes ext (vrt self) (rotate_vector ext (wind_div self)))))
            (\<lambda>rot_term.
               and_then (elementwise (-) div_term rot_term)
                 (\<lambda>difference. Inr (nd_map (\<lambda>x. x / 2) difference))))"

definition conversion_dke_rke ::
  "('s, 'v) collaborators \<Rightarrow> ('s, 'v) seba_budget \<Rightarrow> error + real ndarray" where
  "conversion_dke_rke ext self =
     and_then (conversion_dke_rke_vorticity ext self)
       (\<lambda>vorticity_advection.
          and_then (conversion_dke_rke_coriolis ext self)
            (\<lambda>linear_conversion.
               and_then (conversion_dke_rke_vertical ext self)
                 (\<lambda>vertical_transfer.
                    and_then (elementwise (+) vorticity_advection linear_conversion)
                      (\<lambda>partial. elementwise (+) partial vertical_transfer))))"

text \<open>
  The conversion entries of \<^verbatim>\<open>nonlinear_energy_fluxes\<close>: the three mechanisms
  under their own names and their sum \<^verbatim>\<open>cdr = cdr_w + cdr_v + cdr_c\<close>. The other
  entries of the dataset and the metadata are left out.
\<close>

definition nonlinear_energy_fluxes ::
  "('s, 'v) collaborators \<Rightarrow> ('s, 'v) seba_budget \<Rightarrow> error + (string \<rightharpoonup> real ndarray)" where
  "nonlinear_energy_fluxes ext self =
     and_then (conversion_dke_rke_vertical ext self)
       (\<lambda>cdr_w.
          and_then (conversion_dke_rke_vorticity ext self)
            (\<lambda>cdr_v.
               and_then (conversion_dke_rke_coriolis ext self)
                 (\<lambda>cdr_c.
                    and_then (elementwise (+) cdr_w cdr_v)
                      (\<lambda>partial.
                         and_then (elementwise (+) partial cdr_c)
                           (\<lambda>cdr. Inr (Map.empty(''cdr_w'' \<mapsto> cdr_w, ''cdr_v'' \<mapsto> cdr_v,
                                                  ''cdr_c'' \<mapsto> cdr_c, ''cdr'' \<mapsto> cdr)))))))"

subsection \<open>Gradients of masked fields\<close>

text \<open>
  A masked array (\<^verbatim>\<open>numpy.ma.MaskedArray\<close>), flattened: a masked entry carries no
  value. An array without mask has every entry present. \<^verbatim>\<open>np.ma.is_masked\<close> holds
  when some entry is masked; \<^verbatim>\<open>(~scalar.mask).astype(float)\<close> is the indicator of
  the valid entries.
\<close>

type_synonym masked = "real option list"

definition is_masked :: "masked \<Rightarrow> bool" where
  "is_masked scalar = list_ex (\<lambda>x. x = None) scalar"

definition mask_indicator :: "masked \<Rightarrow> real list" where
  "mask_indicator scalar = map (\<lambda>x. case x of None \<Rightarrow> 0 | Some v \<Rightarrow> 1) scalar"

text \<open>
  Arithmetic of an array without mask with a masked array, as \<^verbatim>\<open>numpy.ma\<close> does
  it: entry by entry, and the result is masked where the masked operand is.
\<close>

definition plain_times_masked :: "real list \<Rightarrow> masked \<Rightarrow> masked" where
  "plain_times_masked b scalar = map2 (\<lambda>c x. map_option (\<lambda>v. c * v) x) b scalar"

definition plain_minus_masked :: "real list \<Rightarrow> masked \<Rightarrow> masked" where
  "plain_minus_masked g scalar = map2 (\<lambda>c x. map_option (\<lambda>v. c - v) x) g scalar"

text \<open>
  \<^verbatim>\<open>horizontal_gradient\<close>: \<^verbatim>\<open>self.sphere.getgrad\<close> is the parameter
  \<open>getgrad\<close>, giving the zonal and the meridional component; what it does with the
  masked entries of its argument is outside the sources.
\<close>

definition horizontal_gradient ::
  "(masked \<Rightarrow> real list \<times> real list) \<Rightarrow> masked \<Rightarrow> masked \<times> masked" where
  "horizontal_gradient getgrad scalar =
     (let scalar_gradient = getgrad scalar in
      if is_masked scalar then
        (let beta_gradient = getgrad (map Some (mask_indicator scalar))
         in (plain_minus_masked (fst scalar_gradient) (plain_times_masked (fst beta_gradient) scalar),
             plain_minus_masked (snd scalar_gradient) (plain_times_masked (snd beta_gradient) scalar)))
      else (map Some (fst scalar_gradient), map Some (snd scalar_gradient)))"

text \<open>
  \<^verbatim>\<open>vertical_gradient\<close>: the finite-difference helper \<^verbatim>\<open>gradient_1d\<close> of the
  newer \<^verbatim>\<open>tools\<close> module is the parameter of that name, taking the field and the
  pressure levels.
\<close>

definition vertical_gradient ::
  "(masked \<Rightarrow> real list \<Rightarrow> real list) \<Rightarrow> real list \<Rightarrow> masked \<Rightarrow> masked" where
  "vertical_gradient gradient_1d pressure_levels scalar =
     (let scalar_gradient = gradient_1d scalar pressure_levels in
      if is_masked scalar then
        (let beta_gradient = gradient_1d (map Some (mask_indicator scalar)) pressure_levels
         in plain_minus_masked scalar_gradient (plain_times_masked beta_gradient scalar))
      else map Some scalar_gradient)"

text \<open>
  Modelled from the spec: the spherical-harmonics object behind
  \<^verbatim>\<open>self.sphere.getgrad\<close> and the helper \<^verbatim>\<open>gradient_1d\<close> are not among the
  sources, so what they read at a masked entry cannot be seen there. The specification
  has them differentiate the zero-filled masked field, and \<^verbatim>\<open>io_tools.get_field\<close>
  sets the fill value of every field to zero for the spectral analysis. \<open>filled\<close> is
  \<^verbatim>\<open>scalar.filled(0)\<close>; the properties below take as a hypothesis that the two
  collaborators see a masked field through it.
\<close>

definition filled :: "masked \<Rightarrow> real list" where
  "filled scalar = map (\<lambda>x. case x of None \<Rightarrow> 0 | Some v \<Rightarrow> v) scalar"

text \<open>
  Difference operators on a ring of points, for the examples: forward and backward
  differences for the two components of the horizontal gradient, a forward difference
  scaled by the first level for the vertical one.
\<close>

definition example_getgrad :: "real list \<Rightarrow> real list \<times> real list" where
  "example_getgrad a =
     (map (\<lambda>i. a ! ((i + 1) mod length a) - a ! i) [0..<length a],
      map (\<lambda>i. a ! i - a ! ((i + length a - 1) mod length a)) [0..<length a])"

definition example_gradient_1d :: "real list \<Rightarrow> real list \<Rightarrow> real list" where
  "example_gradient_1d a levels =
     map (\<lambda>i. (a ! ((i + 1) mod length a) - a ! i) * hd levels) [0..<length a]"

text \<open>Collaborators and an engine state on a single grid point, for the examples.\<close>

definition example_collaborators :: "(real, real) collaborators" where
  "example_collaborators =
     \<lparr>compute_rotdiv = (\<lambda>v. (\<lparr>shape = [1, 1, 1], data = [complex_of_real v]\<rparr>,
                               \<lparr>shape = [1, 1, 1], data = [0]\<rparr>)),
      integrate_order = (\<lambda>a n. \<lparr>shape = [n, prod_list (tl (shape a))],
                                   data = replicate (n * prod_list (tl (shape a)))
                                            (sum_list (data a))\<rparr>),
      rotate_vector = (\<lambda>v. v + 1),
      stimes = (\<lambda>s v. s * v),
      vtimes = (\<lambda>u v. u * v),
      vshape = (\<lambda>v. [2, 1, 1, 1, 1])\<rparr>"

definition example_seba :: "(real, real) seba_budget" where
  "example_seba =
     \<lparr>sb_nlat = 1, sb_nlon = 1, sb_nlevels = 1, sb_samples = 1, sb_truncation = 0,
      weights = [1], beta = \<lparr>shape = [1, 1, 1, 1], data = [1]\<rparr>,
      beta_fraction = \<lparr>shape = [1, 1], data = [1]\<rparr>,
      sb_norm = \<lparr>shape = [1, 1, 1], data = [1]\<rparr>,
      omega = 5, vrt = 4, wind = 1, wind_shear = 7, wind_div = 3, wind_rot = 1, fc = 2\<rparr>"

section \<open>Properties of the worker count selection\<close>

lemma number_chunks_loop_finds:
  assumes "1 \<le> j" and "j \<le> w"
    and "\<forall>k. j < k \<and> k \<le> w \<longrightarrow> \<not> k dvd s"
  shows "\<exists>d. 1 \<le> d \<and> d \<le> j \<and> d dvd s \<and> (\<forall>k. d < k \<and> k \<le> w \<longrightarrow> \<not> k dvd s)
            \<and> number_chunks_loop s j = Some (Inr d)"
  using assms
proof (induction "nat j" arbitrary: j)
  case 0
  then show ?case by simp
next
  case (Suc n)
  show ?case
  proof (cases "j dvd s")
    case True
    then have "number_chunks_loop s j = Some (Inr j)"
      using Suc.prems(1) by (subst number_chunks_loop.simps) (simp add: dvd_eq_mod_eq_0)
    with True Suc.prems show ?thesis by blast
  next
    case False
    then have j1: "j \<noteq> 1" by auto
    with Suc.prems have j2: "1 \<le> j - 1" by simp
    have n: "n = nat (j - 1)" using Suc.hyps(2) by simp
    have up: "\<forall>k. j - 1 < k \<and> k \<le> w \<longrightarrow> \<not> k dvd s"
    proof (intro allI impI)
      fix k assume k: "j - 1 < k \<and> k \<le> w"
      show "\<not> k dvd s"
      proof (cases "k = j")
        case True
        then show ?thesis using False by simp
      next
        case False
        then have "j < k" using k by simp
        then show ?thesis using Suc.prems(3) k by blast
      qed
    qed
    from Suc.hyps(1) [OF n j2 _ up] Suc.prems(2)
    obtain d where d: "1 \<le> d" "d \<le> j - 1" "d dvd s"
      "\<forall>k. d < k \<and> k \<le> w \<longrightarrow> \<not> k dvd s" "number_chunks_loop s (j - 1) = Some (Inr d)"
      by auto
    have "number_chunks_loop s j = number_chunks_loop s (j - 1)"
      using False Suc.prems(1) by (subst number_chunks_loop.simps) (simp add: dvd_eq_mod_eq_0)
    with d show ?thesis by (intro exI [of _ d]) simp
  qed
qed

text \<open>
  C7 (as the code has it): for a requested worker count of at least one, the loop stops
  at the largest divisor \<open>d\<close> of the sample size that does not exceed the request; the
  function returns \<open>d\<close> unless \<open>d = 1\<close>, in which case it returns the requested worker
  count itself.
\<close>

theorem number_chunks_divisor_or_request:
  assumes "1 \<le> workers"
  shows "\<exists>d. 1 \<le> d \<and> d \<le> workers \<and> d dvd sample_size
            \<and> (\<forall>k. d < k \<and> k \<le> workers \<longrightarrow> \<not> k dvd sample_size)
            \<and> number_chunks sample_size workers
                = Some (Inr (if d \<noteq> 1 then d else workers))"
proof -
  have "\<forall>k. workers < k \<and> k \<le> workers \<longrightarrow> \<not> k dvd sample_size"
    by auto
  from number_chunks_loop_finds [OF assms order_refl this]
  obtain d where d: "1 \<le> d" "d \<le> workers" "d dvd sample_size"
    "\<forall>k. d < k \<and> k \<le> workers \<longrightarrow> \<not> k dvd sample_size"
    "number_chunks_loop sample_size workers = Some (Inr d)"
    by auto
  then show ?thesis
    by (intro exI [of _ d]) (simp add: number_chunks_def)
qed

theorem number_chunks_divisor_or_request_witness:
  "\<exists>d::int. 1 \<le> d \<and> d \<le> 5 \<and> d dvd 12 \<and> (\<forall>k. d < k \<and> k \<le> 5 \<longrightarrow> \<not> k dvd 12)
      \<and> number_chunks 12 5 = Some (Inr (if d \<noteq> 1 then d else 5))"
  using number_chunks_divisor_or_request [of 5 12] by simp

text \<open>
  C7 (as the specification words it) fails: with seven samples and three requested
  workers the only divisor found is one, and the function returns three workers, which
  is neither one nor a divisor of seven.
\<close>

theorem number_chunks_no_sequential_fallback:
  "number_chunks 7 3 = Some (Inr 3) \<and> \<not> (3::int) dvd 7 \<and> number_chunks 7 3 \<noteq> Some (Inr 1)"
  by (simp add: number_chunks_def number_chunks_loop.simps)


section \<open>Properties of the vertical integration\<close>

text \<open>
  C10: whatever the pressure range (the default is the whole column), the levels handed
  to Simpson's rule are exactly the levels inside the sorted range whose pressure differs
  from the first and from the last pressure of the column, so the first and the last
  level are never integrated; the integral is multiplied by the direction and divided
  by \<open>g\<close>.
\<close>

theorem vertical_integration_interior_levels:
  assumes "p_levels self \<noteq> []" and "length (p_levels self) \<le> length scalar"
    and "\<forall>a. pressure_range \<noteq> Some (a, a)"
    and "(lo, hi) = (case pressure_range of
                      None \<Rightarrow> (min (hd (p_levels self)) (last (p_levels self)),
                                max (hd (p_levels self)) (last (p_levels self)))
                    | Some (a, b) \<Rightarrow> (min a b, max a b))"
  shows "\<exists>levels.
           levels = filter (\<lambda>k. lo \<le> p_levels self ! k \<and> p_levels self ! k \<le> hi
                                \<and> p_levels self ! k \<noteq> p_levels self ! 0
                                \<and> p_levels self ! k \<noteq> p_levels self ! (length (p_levels self) - 1))
                      [0..<length (p_levels self)]
         \<and> 0 \<notin> set levels \<and> length (p_levels self) - 1 \<notin> set levels
         \<and> vertical_integration simpson g self scalar pressure_range
             = (case simpson (map (\<lambda>k. scalar ! k) levels) (map (\<lambda>k. p_levels self ! k) levels) of
                  Inl e \<Rightarrow> Inl e
                | Inr integral \<Rightarrow> Inr (of_int (direction self) * integral / g))"
proof -
  let ?p = "p_levels self"
  let ?levels = "filter (\<lambda>k. lo \<le> ?p ! k \<and> ?p ! k \<le> hi \<and> ?p ! k \<noteq> ?p ! 0
                            \<and> ?p ! k \<noteq> ?p ! (length ?p - 1)) [0..<length ?p]"
  have hd: "hd ?p = ?p ! 0" using assms(1) by (simp add: hd_conv_nth)
  have last: "last ?p = ?p ! (length ?p - 1)" using assms(1) by (simp add: last_conv_nth)
  have lev: "vertical_levels ?p lo hi = ?levels"
    by (simp add: vertical_levels_def hd last conj_ac)
  have inrange: "\<not> (\<exists>k \<in> set (vertical_levels ?p lo hi). length scalar \<le> k)"
    using assms(2) by (auto simp: vertical_levels_def)
  let ?rest = "case simpson (map (\<lambda>k. scalar ! k) (vertical_levels ?p lo hi))
                      (map (\<lambda>k. ?p ! k) (vertical_levels ?p lo hi)) of
                 Inl e \<Rightarrow> Inl e
               | Inr integral \<Rightarrow> Inr (of_int (direction self) * integral / g)"
  have step: "vertical_integration simpson g self scalar pressure_range
      = (if \<exists>k \<in> set (vertical_levels ?p lo hi). length scalar \<le> k then Inl IndexError
         else ?rest)"
  proof (cases pressure_range)
    case None
    with assms(4) have "lo = min (hd ?p) (last ?p)" "hi = max (hd ?p) (last ?p)" by simp_all
    then show ?thesis
      using None assms(1) by (simp add: vertical_integration_def Let_def)
  next
    case (Some ab)
    obtain a b where ab: "ab = (a, b)" by (cases ab)
    with Some assms(3) have "a \<noteq> b" by auto
    moreover from assms(4) Some ab have "lo = min a b" "hi = max a b" by simp_all
    ultimately show ?thesis
      using Some ab assms(1) by (simp add: vertical_integration_def Let_def)
  qed
  have res: "vertical_integration simpson g self scalar pressure_range
      = (case simpson (map (\<lambda>k. scalar ! k) ?levels) (map (\<lambda>k. ?p ! k) ?levels) of
           Inl e \<Rightarrow> Inl e
         | Inr integral \<Rightarrow> Inr (of_int (direction self) * integral / g))"
    using inrange unfolding step lev by (simp only: if_False)
  have "0 \<notin> set ?levels" by simp
  moreover have "length ?p - 1 \<notin> set ?levels" by simp
  ultimately show ?thesis using res by blast
qed

theorem vertical_integration_interior_levels_witness:
  "\<exists>self. init_engine 1 example_info [1000, 850, 500, 250] None = Inr self
     \<and> vertical_integration (\<lambda>ys xs. Inr (sum_list ys)) 10 self [1, 2, 3, 4] None
        = Inr (1 * (2 + 3) / 10)"
proof -
  obtain self where self: "init_engine 1 example_info [1000, 850, 500, 250] None = Inr self"
    by (simp add: init_engine_def example_info_def Let_def)
  then have p: "p_levels self = [1000, 850, 500, 250]" and d: "direction self = 1"
    by (auto simp: init_engine_def example_info_def Let_def sign_def init_info.defs)
  show ?thesis
    using self vertical_integration_interior_levels
      [of self "[1, 2, 3, 4]" None 250 1000 "\<lambda>ys xs. Inr (sum_list ys)" 10]
    by (simp add: p d upt_conv_Cons)
qed

section \<open>Properties of the terrain mask\<close>

lemma takeWhile_less_sorted:
  "sorted xs \<Longrightarrow> takeWhile (\<lambda>x. x < v) xs = filter (\<lambda>x. x < (v::real)) xs"
proof (induction xs)
  case Nil
  then show ?case by simp
next
  case (Cons x xs)
  show ?case
  proof (cases "x < v")
    case True
    with Cons show ?thesis by simp
  next
    case False
    with Cons.prems have "\<forall>y \<in> set xs. \<not> y < v" by auto
    then have "filter (\<lambda>x. x < v) xs = []" by (simp add: filter_empty_conv)
    with False show ?thesis by simp
  qed
qed

lemma length_filter_sort:
  "length (filter P (sort xs)) = length (filter P (xs::real list))"
  by (simp add: filter_sort)

lemma searchsorted_sort_count:
  "searchsorted (sort p) v = length (filter (\<lambda>x. x < v) p)"
  by (simp add: searchsorted_def takeWhile_less_sorted length_filter_sort)

lemma count_equal_distinct:
  "distinct p \<Longrightarrow> m \<in> set p \<Longrightarrow> length (filter (\<lambda>x. x = m) p) = 1"
  by (induction p) (auto simp: filter_empty_conv)

lemma count_below_Max:
  assumes "p \<noteq> []" and "distinct p"
  shows "length (filter (\<lambda>x. x < Max (set p)) p) = length p - 1"
proof -
  let ?M = "Max (set p)"
  have M: "?M \<in> set p" using assms(1) by simp
  have "filter (\<lambda>x. \<not> x < ?M) p = filter (\<lambda>x. x = ?M) p"
    by (rule filter_cong) (auto simp: not_less antisym)
  moreover have "length (filter (\<lambda>x. x = ?M) p) = 1"
    using M assms(2) by (simp add: count_equal_distinct)
  moreover have "length (filter (\<lambda>x. x < ?M) p) + length (filter (\<lambda>x. \<not> x < ?M) p) = length p"
    by (rule sum_length_filter_compl)
  ultimately show ?thesis by simp
qed

lemma column_from_one:
  "0 < n \<Longrightarrow> map (\<lambda>k. clip 0 1 (if Suc 0 \<le> k then 1 else 0)) [0..<n] = 0 # replicate (n - 1) 1"
  by (rule nth_equalityI) (auto simp: clip_def nth_Cons')

text \<open>
  C8: with distinct pressure levels stored surface-first (level 0 carries the maximum
  pressure) and a surface pressure equal to that pressure at every grid point, the
  unsmoothed mask is 0 on level 0 and 1 on every other level, in every column.
\<close>

theorem terrain_mask_bottom_level:
  assumes "p \<noteq> []" and "distinct p" and "p ! 0 = Max (set p)"
    and "\<forall>row \<in> set ps. \<forall>v \<in> set row. v = p ! 0"
  shows "terrain_mask lowpass p ps False
           = map (map (\<lambda>v. 0 # replicate (length p - 1) 1)) ps"
proof -
  have lev: "length p - searchsorted (sort p) (Max (set p)) = Suc 0"
  proof -
    have "searchsorted (sort p) (Max (set p)) = length p - 1"
      using assms(1,2) by (simp add: searchsorted_sort_count count_below_Max)
    moreover have "0 < length p" using assms(1) by simp
    ultimately show ?thesis by arith
  qed
  have n: "0 < length p" using assms(1) by simp
  have col: "map (clip 0 1) (map (\<lambda>k. if length p - searchsorted (sort p) v \<le> k then 1 else 0)
                 [0..<length p]) = 0 # replicate (length p - 1) 1" if "v = p ! 0" for v
    using that lev assms(3) column_from_one [OF n] by (simp add: comp_def)
  have "map (map (map (clip 0 1)))
          (map (map (\<lambda>m. map (\<lambda>k. if m \<le> k then 1 else 0) [0..<length p]))
             (map (map (\<lambda>v. length p - searchsorted (sort p) v)) ps))
        = map (map (\<lambda>v. map (clip 0 1)
             (map (\<lambda>k. if length p - searchsorted (sort p) v \<le> k then 1 else 0) [0..<length p]))) ps"
    by (simp add: comp_def)
  also have "\<dots> = map (map (\<lambda>v. 0 # replicate (length p - 1) 1)) ps"
    using assms(4) col by (intro map_cong refl) blast
  finally show ?thesis
    by (simp add: terrain_mask_def Let_def)
qed

theorem terrain_mask_bottom_level_witness:
  "terrain_mask (\<lambda>b. b) [1000, 850, 500] [[1000, 1000], [1000, 1000]] False
     = [[[0, 1, 1], [0, 1, 1]], [[0, 1, 1], [0, 1, 1]]]"
  using terrain_mask_bottom_level
    [of "[1000, 850, 500]" "[[1000, 1000], [1000, 1000]]" "\<lambda>b. b"]
  by (simp add: numeral_2_eq_2)

section \<open>Properties of the constructor's input checks\<close>

text \<open>
  C9 (as the code has it): the constructor raises its missing-value error, before any
  other check, whenever one of the wind components \<open>u\<close> or \<open>v\<close> contains NaN.
\<close>

theorem init_checks_rejects_nan_in_wind:
  assumes "isnan_any u \<or> isnan_any v"
  shows "init_checks u v w t p axes_arg level_type grid_type_arg
           = Inl (ValueError ''Arrays u and v cannot contain missing values'')"
  using assms by (simp add: init_checks_def)

theorem init_checks_rejects_nan_in_wind_witness:
  "init_checks \<lparr>shape = [1, 1, 1], data = [NaN]\<rparr> \<lparr>shape = [1, 1, 1], data = [Finite 0]\<rparr>
      \<lparr>shape = [1, 1, 1], data = [Finite 0]\<rparr> \<lparr>shape = [1, 1, 1], data = [Finite 280]\<rparr>
      \<lparr>shape = [1], data = [Finite 1000]\<rparr> (Some ''zyx'') ''pressure'' ''gaussian''
     = Inl (ValueError ''Arrays u and v cannot contain missing values'')"
  using init_checks_rejects_nan_in_wind
    [of "\<lparr>shape = [1, 1, 1], data = [NaN]\<rparr>" "\<lparr>shape = [1, 1, 1], data = [Finite 0]\<rparr>"]
  by (simp add: isnan_any_def)

text \<open>
  C9 (as the specification words it) fails for the temperature: with finite wind and a
  temperature that is NaN, every input check of the constructor passes.
\<close>

theorem init_checks_accepts_nan_temperature:
  "isnan_any \<lparr>shape = [1, 1, 1], data = [NaN]\<rparr>
   \<and> init_checks \<lparr>shape = [1, 1, 1], data = [Finite 0]\<rparr> \<lparr>shape = [1, 1, 1], data = [Finite 0]\<rparr>
        \<lparr>shape = [1, 1, 1], data = [Finite 0]\<rparr> \<lparr>shape = [1, 1, 1], data = [NaN]\<rparr>
        \<lparr>shape = [1], data = [Finite 1000]\<rparr> (Some ''zyx'') ''pressure'' ''gaussian''
      = Inr \<lparr>axes = ''zyx'', nlon = 1, nlat = 1, nlevels = 1, samples = 1,
              leveltype = ''pressure'', grid_type = ''gaussian''\<rparr>"
  by (simp add: init_checks_def isnan_any_def ndim_def lower_def lower_char_def
      str_find_def getitem_def)

section \<open>Properties of the cross-spectrum\<close>

lemma getspecindx_props:
  assumes "(ms, ls) = getspecindx T"
  shows "length ms = length ls" and "\<forall>i < length ls. ms ! i \<le> ls ! i"
proof -
  define kept where "kept = filter (\<lambda>(m, n). int n > int m - 1)
     (concat (map (\<lambda>m. map (\<lambda>n. (m, n)) [0..<T + 1]) [0..<T + 1]))"
  have ms: "ms = map fst kept" and ls: "ls = map snd kept"
    using assms by (simp_all add: getspecindx_def Let_def kept_def)
  show "length ms = length ls" by (simp add: ms ls)
  have "\<forall>x \<in> set kept. fst x \<le> snd x" unfolding kept_def by auto
  then show "\<forall>i < length ls. ms ! i \<le> ls ! i"
    by (simp add: ms ls)
qed

lemma rows_nth:
  assumes "length xs = n * s" and "s = prod_list ss"
  shows "rows \<lparr>shape = n # ss, data = xs\<rparr> = map (\<lambda>i. map (\<lambda>j. xs ! (i * prod_list ss + j)) [0..<prod_list ss]) [0..<n]"
proof -
  have "take s (drop (i * s) xs) = map (\<lambda>j. xs ! (i * s + j)) [0..<s]" if "i < n" for i
  proof (rule nth_equalityI)
    have "(i + 1) * s \<le> n * s" using that by (simp only: mult_le_mono1 Suc_leI Suc_eq_plus1[symmetric])
    then have "i * s + s \<le> length xs" using assms(1) by simp
    then show "length (take s (drop (i * s) xs)) = length (map (\<lambda>j. xs ! (i * s + j)) [0..<s])"
      by simp
    show "\<And>k. k < length (take s (drop (i * s) xs)) \<Longrightarrow> take s (drop (i * s) xs) ! k = map (\<lambda>j. xs ! (i * s + j)) [0..<s] ! k"
      using \<open>i * s + s \<le> length xs\<close> by (simp add: nth_drop)
  qed
  then show ?thesis using assms(2) by (simp add: rows_def Let_def)
qed

lemma sum_rows_nth:
  assumes "\<forall>r \<in> set rs. length r = s"
  shows "sum_rows s rs = map (\<lambda>j. sum_list (map (\<lambda>r. r ! j) rs)) [0..<s]"
  using assms
proof (induction rs)
  case Nil
  show ?case by (simp add: sum_rows_def map_replicate_trivial)
next
  case (Cons r rs)
  then have ih: "sum_rows s rs = map (\<lambda>j. sum_list (map (\<lambda>r. r ! j) rs)) [0..<s]" by simp
  have "sum_rows s (r # rs) = map2 (+) r (sum_rows s rs)" by (simp add: sum_rows_def)
  also have "\<dots> = map (\<lambda>j. sum_list (map (\<lambda>r. r ! j) (r # rs))) [0..<s]"
    using Cons.prems by (intro nth_equalityI) (simp_all add: ih)
  finally show ?case .
qed

lemma sum_list_filter_upt:
  "sum_list (map h (filter Q [0..<n])) = (\<Sum>i | i < n \<and> Q i. (h i :: real))"
proof -
  have "distinct (filter Q [0..<n])" by simp
  then have "sum_list (map h (filter Q [0..<n])) = sum h (set (filter Q [0..<n]))"
    by (simp add: sum_list_distinct_conv_sum_set)
  also have "set (filter Q [0..<n]) = {i. i < n \<and> Q i}" by auto
  finally show ?thesis .
qed


lemma zip_upt_map:
  "length xs = n \<Longrightarrow> length ys = n \<Longrightarrow> zip xs ys = map (\<lambda>i. (xs ! i, ys ! i)) [0..<n]"
  by (rule nth_equalityI) simp_all

text \<open>
  C1: on an engine whose index arrays come from \<open>getspecindx\<close>, for coefficient
  arrays of \<open>ncoeffs\<close> rows (and an optional second array of the same shape), the
  value returned for degree \<open>d\<close> and sample \<open>j\<close> is the sum, over exactly the
  coefficients whose total wavenumber is \<open>d\<close>, of the real part of
  \<open>clm1 * conj(clm2)\<close> (of \<open>clm1 * conj(clm1)\<close> without a second array), counted twice
  when the zonal wavenumber is not zero; the sum is divided by 2, and multiplied by
  \<open>4\<pi>\<close> exactly when the convention is \<open>energy\<close>. The degrees are \<open>0..T\<close>.
\<close>

theorem cross_spectrum_bins_by_degree:
  assumes idx: "(zonal_wavenumber self, total_wavenumber self) = getspecindx (truncation self)"
    and degs: "degrees self = [0..<truncation self + 1]"
    and sh: "shape clm1 = length (total_wavenumber self) # sample_shape"
    and wf1: "wf clm1"
    and c2: "case clm2 of None \<Rightarrow> other = clm1
             | Some c \<Rightarrow> other = c \<and> shape c = shape clm1 \<and> wf c"
    and conv: "convention = ''energy'' \<or> convention = ''power''"
  shows "cross_spectrum self clm1 clm2 None convention =
     Inr (squeeze \<lparr>shape = (truncation self + 1) # sample_shape,
       data = concat (map (\<lambda>d. map (\<lambda>j.
           (\<Sum>i | i < length (total_wavenumber self) \<and> total_wavenumber self ! i = d.
              (if zonal_wavenumber self ! i = 0 then 1 else 2)
               * Re (data clm1 ! (i * prod_list sample_shape + j)
                     * cnj (data other ! (i * prod_list sample_shape + j))))
           / 2 * (if convention = ''energy'' then 4 * pi else 1))
         [0..<prod_list sample_shape]) [0..<truncation self + 1])\<rparr>)"
proof -
  define ms where "ms = zonal_wavenumber self"
  define ls where "ls = total_wavenumber self"
  define n where "n = length ls"
  define S where "S = prod_list sample_shape"
  define sq where "sq = map2 (\<lambda>a b. Re (a * cnj b)) (data clm1) (data other)"
  define w where "w = (\<lambda>i. if ms ! i = (0::nat) then 1 else (2::real))"
  define weighted where "weighted = map (\<lambda>i. map (\<lambda>j. w i * sq ! (i * S + j)) [0..<S]) [0..<n]"
  have lms: "length ms = n" and le: "\<forall>i < n. ms ! i \<le> ls ! i"
    using getspecindx_props [of ms ls "truncation self"] idx
    by (simp_all add: ms_def ls_def n_def)
  have len1: "length (data clm1) = n * S"
    using wf1 sh by (simp add: wf_def n_def ls_def S_def)
  have other: "shape other = shape clm1" "length (data other) = n * S"
    using c2 sh len1 by (auto simp: wf_def n_def ls_def S_def split: option.splits)
  have lsq: "length sq = n * S" by (simp add: sq_def len1 other)
  have rows: "rows \<lparr>shape = shape clm1, data = sq\<rparr>
                = map (\<lambda>i. map (\<lambda>j. sq ! (i * S + j)) [0..<S]) [0..<n]"
    using rows_nth [OF lsq, of sample_shape] sh by (simp add: S_def n_def ls_def)
  have wgt: "map2 (\<lambda>w row. map (\<lambda>x. w * x) row) (map (\<lambda>m. if m = 0 then 1 else 2) ms)
               (rows \<lparr>shape = shape clm1, data = sq\<rparr>) = weighted"
    unfolding rows weighted_def
    by (rule nth_equalityI) (simp_all add: lms w_def)
  have lw: "length weighted = n" by (simp add: weighted_def)
  have sel: "map snd (filter (\<lambda>((m, l), row). int m \<le> int d \<and> int l = int d) (zip (zip ms ls) weighted))
        = map (\<lambda>i. weighted ! i) (filter (\<lambda>i. ls ! i = d) [0..<n])" for d
  proof -
    have z: "zip (zip ms ls) weighted = map (\<lambda>i. ((ms ! i, ls ! i), weighted ! i)) [0..<n]"
      using lms lw by (intro nth_equalityI) (simp_all add: n_def)
    have "filter (\<lambda>i. ms ! i \<le> d \<and> ls ! i = d) [0..<n] = filter (\<lambda>i. ls ! i = d) [0..<n]"
      using le by (intro filter_cong refl) auto
    then show ?thesis
      unfolding z by (simp add: filter_map comp_def)
  qed
  have binned: "sum_rows S (map (\<lambda>i. weighted ! i) (filter (\<lambda>i. ls ! i = d) [0..<n]))
        = map (\<lambda>j. \<Sum>i | i < n \<and> ls ! i = d. w i * sq ! (i * S + j)) [0..<S]" for d
  proof -
    have "\<forall>r \<in> set (map (\<lambda>i. weighted ! i) (filter (\<lambda>i. ls ! i = d) [0..<n])). length r = S"
      by (auto simp: weighted_def)
    then have "sum_rows S (map (\<lambda>i. weighted ! i) (filter (\<lambda>i. ls ! i = d) [0..<n]))
        = map (\<lambda>j. sum_list (map (\<lambda>r. r ! j) (map (\<lambda>i. weighted ! i) (filter (\<lambda>i. ls ! i = d) [0..<n])))) [0..<S]"
      by (rule sum_rows_nth)
    also have "\<dots> = map (\<lambda>j. sum_list (map (\<lambda>i. w i * sq ! (i * S + j)) (filter (\<lambda>i. ls ! i = d) [0..<n]))) [0..<S]"
      by (intro map_cong refl arg_cong [where f = sum_list]) (auto simp: weighted_def)
    also have "\<dots> = map (\<lambda>j. \<Sum>i | i < n \<and> ls ! i = d. w i * sq ! (i * S + j)) [0..<S]"
      by (simp add: sum_list_filter_upt)
    finally show ?thesis .
  qed
  have sqv: "sq ! (i * S + j) = Re (data clm1 ! (i * S + j) * cnj (data other ! (i * S + j)))"
    if "i < n" "j < S" for i j
  proof -
    have "i * S + j < (i + 1) * S" using that by simp
    also have "\<dots> \<le> n * S" using that by (intro mult_le_mono1) simp
    finally show ?thesis by (simp add: sq_def len1 other)
  qed
  let ?f = "\<lambda>x::real. x / 2 * (if convention = ''energy'' then 4 * pi else 1)"
  define spec where "spec = map (\<lambda>degree. sum_rows S
           (map snd (filter (\<lambda>((m, l), row). int m \<le> degree \<and> int l = degree)
               (zip (zip ms ls) weighted)))) (map int (degrees self))"
  have lowc: "lower convention = convention"
    using conv by (auto simp: lower_def lower_char_def)
  have s0: "(shape clm1 = []) = False" and s1: "tl (shape clm1) = sample_shape"
    and s2: "hd (shape clm1) = length ms"
    using sh lms by (simp_all add: n_def ls_def)
  have cv: "(convention \<noteq> ''energy'' \<and> convention \<noteq> ''power'') = False"
    using conv by auto
  have oth: "(case clm2 of None \<Rightarrow> Inr clm1
              | Some c2 \<Rightarrow> if shape c2 = shape clm1 then Inr c2
                  else Inl (AssertionError ''Arrays clm1 and clm2 must have the same shape.''))
             = Inr other"
    using c2 by (cases clm2) simp_all
  have sz: "(length ms \<noteq> length ms \<and> length ms \<noteq> 1) = False" by simp
  have unfolded: "cross_spectrum self clm1 clm2 None convention =
     Inr (squeeze \<lparr>shape = length (map int (degrees self)) # sample_shape,
        data = concat (if convention = ''energy''
                       then map (map (\<lambda>x. x * (4 * pi))) (map (map (\<lambda>x. x / 2)) spec)
                       else map (map (\<lambda>x. x / 2)) spec)\<rparr>)"
    unfolding cross_spectrum_def Let_def s0 s1 s2 cv oth sz lowc
      ms_def [symmetric] ls_def [symmetric] sq_def [symmetric] S_def [symmetric]
    by (simp only: if_False if_True option.case sum.case refl wgt [unfolded sq_def] spec_def)
  have "(if convention = ''energy''
          then map (map (\<lambda>x. x * (4 * pi))) (map (map (\<lambda>x. x / 2)) spec)
          else map (map (\<lambda>x. x / 2)) spec) = map (map ?f) spec"
    by (simp add: comp_def)
  with unfolded have "cross_spectrum self clm1 clm2 None convention =
     Inr (squeeze \<lparr>shape = length (map int (degrees self)) # sample_shape,
        data = concat (map (map ?f) spec)\<rparr>)"
    by (simp only:)
  also have "map (map ?f) spec
     = map (\<lambda>d. map (\<lambda>j. ?f (\<Sum>i | i < n \<and> ls ! i = d.
              w i * Re (data clm1 ! (i * S + j) * cnj (data other ! (i * S + j))))) [0..<S])
         [0..<truncation self + 1]"
    unfolding spec_def degs map_map comp_def sel binned
    by (intro map_cong refl arg_cong [where f = ?f] sum.cong) (auto simp: sqv)
  finally show ?thesis
    by (simp add: degs n_def ls_def ms_def S_def w_def)
qed


lemma init_engine_index_set:
  assumes "init_engine earth_radius info p truncation_arg = Inr self"
  shows "(zonal_wavenumber self, total_wavenumber self) = getspecindx (truncation self)"
    and "degrees self = [0..<truncation self + 1]"
    and "ncoeffs self = length (total_wavenumber self)"
    and "nlat self = nlat info"
  using assms
  by (auto simp: init_engine_def Let_def init_info.defs simp del: upt_Suc
      split: if_splits option.splits sum.splits)

lemma getspecindx_1: "getspecindx 1 = ([0, 0, 1], [0, 1, 1])"
  by (simp add: getspecindx_def Let_def upt_conv_Cons)

theorem cross_spectrum_bins_by_degree_witness:
  "\<exists>self. init_engine 1 example_info [1000, 850, 500, 250] (Some 1) = Inr self
     \<and> cross_spectrum self \<lparr>shape = [3], data = [1, \<i>, 2]\<rparr> None None ''power''
       = Inr \<lparr>shape = [2], data = [1 / 2, 9 / 2]\<rparr>"
proof -
  obtain self where self: "init_engine 1 example_info [1000, 850, 500, 250] (Some 1) = Inr self"
    by (simp add: init_engine_def example_info_def Let_def)
  note inv = init_engine_index_set [OF self]
  have t: "truncation self = 1"
    using self by (auto simp: init_engine_def example_info_def Let_def init_info.defs)
  have ml: "zonal_wavenumber self = [0, 0, 1]" "total_wavenumber self = [0, 1, 1]"
    using inv(1) unfolding t getspecindx_1 by simp_all
  have sh: "shape \<lparr>shape = [3], data = [1, \<i>, 2 :: complex]\<rparr> = length (total_wavenumber self) # []"
    by (simp add: ml)
  have wf1: "wf \<lparr>shape = [3], data = [1, \<i>, 2 :: complex]\<rparr>" by (simp add: wf_def)
  have c2: "case None of None \<Rightarrow> \<lparr>shape = [3], data = [1, \<i>, 2 :: complex]\<rparr> = \<lparr>shape = [3], data = [1, \<i>, 2]\<rparr>
            | Some c \<Rightarrow> \<lparr>shape = [3], data = [1, \<i>, 2]\<rparr> = c
                \<and> shape c = shape \<lparr>shape = [3], data = [1, \<i>, 2 :: complex]\<rparr> \<and> wf c"
    by simp
  have conv: "''power'' = ''energy'' \<or> ''power'' = ''power''" by simp
  have s0: "{i. i < Suc (Suc (Suc 0)) \<and> [0, Suc 0, Suc 0] ! i = 0} = {0}"
    by (auto simp: nth_Cons' less_Suc_eq)
  have s1: "{i. i < Suc (Suc (Suc 0)) \<and> [0, Suc 0, Suc 0] ! i = Suc 0} = {Suc 0, Suc (Suc 0)}"
    by (auto simp: nth_Cons' less_Suc_eq)
  show ?thesis
    using self cross_spectrum_bins_by_degree [OF inv(1) inv(2) sh wf1 c2 conv]
    by (simp add: t ml squeeze_def upt_conv_Cons s0 s1)
qed

section \<open>Properties of index arithmetic and broadcasting\<close>

lemma length_unravel [simp]: "length (unravel s k) = length s"
  by (induction s arbitrary: k) simp_all

lemma unravel_valid: "k < prod_list s \<Longrightarrow> list_all2 (<) (unravel s k) s"
proof (induction s arbitrary: k)
  case Nil
  then show ?case by simp
next
  case (Cons d ds)
  from Cons.prems have k: "k < d * prod_list ds" by simp
  then have pos: "0 < prod_list ds" by (cases "prod_list ds = 0") simp_all
  have "k div prod_list ds < d"
    using k pos by (simp add: less_mult_imp_div_less mult.commute)
  moreover have "k mod prod_list ds < prod_list ds" using pos by simp
  ultimately show ?case using Cons.IH by simp
qed

lemma ravel_unravel: "k < prod_list s \<Longrightarrow> ravel s (unravel s k) = k"
proof (induction s arbitrary: k)
  case Nil
  then show ?case by simp
next
  case (Cons d ds)
  from Cons.prems have k: "k < d * prod_list ds" by simp
  then have pos: "0 < prod_list ds" by (cases "prod_list ds = 0") simp_all
  have "ravel ds (unravel ds (k mod prod_list ds)) = k mod prod_list ds"
    using pos by (intro Cons.IH) simp
  then show ?case by simp
qed

lemma ravel_less: "list_all2 (<) idx s \<Longrightarrow> ravel s idx < prod_list s"
proof (induction idx s rule: list_all2_induct)
  case Nil
  then show ?case by simp
next
  case (Cons i idx d ds)
  have "i * prod_list ds + ravel ds idx < i * prod_list ds + prod_list ds"
    using Cons.IH by simp
  also have "\<dots> = (i + 1) * prod_list ds" by simp
  also have "\<dots> \<le> d * prod_list ds"
    using Cons.hyps(1) by (intro mult_le_mono1) simp
  finally show ?case by simp
qed

lemma unravel_ravel: "list_all2 (<) idx s \<Longrightarrow> unravel s (ravel s idx) = idx"
proof (induction idx s rule: list_all2_induct)
  case Nil
  then show ?case by simp
next
  case (Cons i idx d ds)
  have r: "ravel ds idx < prod_list ds" using Cons.hyps(2) by (rule ravel_less)
  then have "(i * prod_list ds + ravel ds idx) div prod_list ds = i"
    and "(i * prod_list ds + ravel ds idx) mod prod_list ds = ravel ds idx"
    by simp_all
  then show ?case using Cons.IH by simp
qed


lemma broadcast_dims_prefix: "broadcast_dims (xs @ ys) xs = Some (xs @ ys)"
proof (induction xs)
  case Nil
  show ?case by (cases ys) simp_all
next
  case (Cons x xs)
  then show ?case by simp
qed

lemma broadcast_dims_prefix': "broadcast_dims xs (xs @ ys) = Some (xs @ ys)"
  by (induction xs) simp_all

lemma broadcast_shape_suffix: "broadcast_shape (pre @ s) s = Some (pre @ s)"
  by (simp add: broadcast_shape_def broadcast_dims_prefix)

lemma broadcast_shape_suffix': "broadcast_shape s (pre @ s) = Some (pre @ s)"
  by (simp add: broadcast_shape_def broadcast_dims_prefix')

lemma broadcast_shape_same: "broadcast_shape s s = Some s"
  using broadcast_shape_suffix [of "[]" s] by simp

lemma prod_list_pos_of_less: "k < n * (m::nat) \<Longrightarrow> 0 < m"
  by (cases "m = 0") simp_all

lemma drop_unravel_append:
  "k < prod_list (pre @ s) \<Longrightarrow>
     drop (length pre) (unravel (pre @ s) k) = unravel s (k mod prod_list s)"
proof (induction pre arbitrary: k)
  case Nil
  then show ?case by simp
next
  case (Cons p pre)
  define P where "P = prod_list (pre @ s)"
  from Cons.prems have "k < p * P" by (simp add: P_def)
  then have pos: "0 < P" by (rule prod_list_pos_of_less)
  then have "k mod P < prod_list (pre @ s)" by (simp add: P_def)
  then have "drop (length pre) (unravel (pre @ s) (k mod P)) = unravel s (k mod P mod prod_list s)"
    by (rule Cons.IH)
  moreover have "k mod P mod prod_list s = k mod prod_list s"
    by (simp add: mod_mod_cancel P_def)
  ultimately show ?case by (simp add: P_def)
qed

lemma clamp_ones_valid:
  "list_all2 (<) idx s \<Longrightarrow> map2 (\<lambda>d i. if d = (1::nat) then 0 else i) s idx = (idx :: nat list)"
  by (induction idx s rule: list_all2_induct) auto

lemma broadcast_index_suffix:
  assumes "k < prod_list (pre @ s)"
  shows "broadcast_index s (pre @ s) k = k mod prod_list s"
proof -
  from assms have "k < prod_list pre * prod_list s" by simp
  then have "0 < prod_list s" by (rule prod_list_pos_of_less)
  then have m: "k mod prod_list s < prod_list s" by simp
  have "broadcast_index s (pre @ s) k
        = ravel s (map2 (\<lambda>d i. if d = 1 then 0 else i) s (unravel s (k mod prod_list s)))"
    using drop_unravel_append [OF assms] by (simp add: broadcast_index_def)
  also have "\<dots> = ravel s (unravel s (k mod prod_list s))"
    using unravel_valid [OF m] by (simp only: clamp_ones_valid)
  also have "\<dots> = k mod prod_list s" using m by (rule ravel_unravel)
  finally show ?thesis .
qed

lemma broadcast_index_same: "k < prod_list s \<Longrightarrow> broadcast_index s s k = k"
  using broadcast_index_suffix [of k "[]" s] by simp

lemma elementwise_same_shape:
  assumes "shape a = shape b" and "wf a" and "wf b"
  shows "elementwise f a b = Inr \<lparr>shape = shape a, data = map2 f (data a) (data b)\<rparr>"
proof -
  have "map (\<lambda>k. f (data a ! broadcast_index (shape a) (shape a) k)
                   (data b ! broadcast_index (shape a) (shape a) k)) [0..<prod_list (shape a)]
        = map2 f (data a) (data b)"
    using assms by (intro nth_equalityI) (simp_all add: wf_def broadcast_index_same)
  then show ?thesis
    using assms(1) by (simp add: elementwise_def broadcast_shape_same [of "shape b"])
qed

lemma elementwise_suffix:
  assumes "shape a = pre @ shape b"
  shows "elementwise f a b = Inr \<lparr>shape = shape a,
           data = map (\<lambda>k. f (data a ! k) (data b ! (k mod prod_list (shape b))))
                    [0..<prod_list (shape a)]\<rparr>"
proof -
  have "map (\<lambda>k. f (data a ! broadcast_index (shape a) (shape a) k)
                   (data b ! broadcast_index (shape b) (shape a) k)) [0..<prod_list (shape a)]
        = map (\<lambda>k. f (data a ! k) (data b ! (k mod prod_list (shape b)))) [0..<prod_list (shape a)]"
  proof (rule map_cong [OF refl])
    fix k assume "k \<in> set [0..<prod_list (shape a)]"
    then have k: "k < prod_list (shape a)" by simp
    then have "broadcast_index (shape a) (shape a) k = k" by (rule broadcast_index_same)
    moreover have "broadcast_index (shape b) (shape a) k = k mod prod_list (shape b)"
      using k broadcast_index_suffix [of k pre "shape b"] assms by simp
    ultimately show "f (data a ! broadcast_index (shape a) (shape a) k)
                       (data b ! broadcast_index (shape b) (shape a) k)
                     = f (data a ! k) (data b ! (k mod prod_list (shape b)))" by simp
  qed
  then show ?thesis
    using broadcast_shape_suffix [of pre "shape b"] assms by (simp add: elementwise_def)
qed

lemma elementwise_wf: "elementwise f a b = Inr r \<Longrightarrow> wf r"
  by (auto simp: elementwise_def wf_def split: option.splits)

section \<open>Properties of the masked gradients\<close>

lemma masked_combination:
  assumes "length g = length scalar" and "length b = length scalar"
  shows "plain_minus_masked g (plain_times_masked b scalar)
         = map (\<lambda>i. case scalar ! i of None \<Rightarrow> None | Some v \<Rightarrow> Some (g ! i - b ! i * v))
             [0..<length scalar]"
  using assms
  by (intro nth_equalityI)
     (auto simp: plain_minus_masked_def plain_times_masked_def split: option.splits)

lemma filled_plain: "filled (map Some xs) = xs"
  by (simp add: filled_def comp_def)

lemma masked_combination_total:
  assumes lg: "length g = length scalar" and lb: "length b = length scalar"
    and lphi: "length phi = length scalar" and lind: "length ind = length scalar"
    and phi: "\<forall>i < length scalar. scalar ! i = None \<or> scalar ! i = Some (phi ! i)"
    and ind: "\<forall>i < length scalar. ind ! i = (if scalar ! i = None then 0 else 1)"
  shows "plain_minus_masked g (plain_times_masked b scalar)
         = map (\<lambda>i. if scalar ! i = None then None
                    else Some (g ! i - map2 (*) ind phi ! i * b ! i))
             [0..<length scalar]"
proof -
  have "(case scalar ! i of None \<Rightarrow> None | Some v \<Rightarrow> Some (g ! i - b ! i * v))
        = (if scalar ! i = None then None else Some (g ! i - map2 (*) ind phi ! i * b ! i))"
    if "i < length scalar" for i
    using that phi [rule_format, OF that] ind [rule_format, OF that] lphi lind
    by (auto split: option.splits)
  then show ?thesis
    unfolding masked_combination [OF lg lb] by (intro map_cong) simp_all
qed

text \<open>
  C5: let \<open>\<phi>\<close> be a field that agrees with the masked array at its valid entries,
  \<open>ind\<close> the indicator of the valid entries (\<open>\<beta>\<close>: 0 at a masked entry, 1 at a
  valid one) and \<open>zf = \<beta>\<phi>\<close> the zero-filled field. With collaborators that see a
  masked field zero-filled, the horizontal gradient of a field with masked entries is,
  in both components and at every valid entry, \<open>G(\<beta>\<phi>) - (\<beta>\<phi>) G(\<beta>)\<close>, and it
  stays masked at the masked entries, whatever \<open>\<phi>\<close> is there. The vertical gradient
  is the same combination with the finite difference along pressure in place of \<open>G\<close>.
  A field without masked entries gets the plain gradient of \<open>\<phi>\<close>. The collaborators
  return arrays of the length of their argument.
\<close>

theorem masked_gradient_identity:
  fixes grad :: "real list \<Rightarrow> real list \<times> real list"
    and diff :: "real list \<Rightarrow> real list \<Rightarrow> real list"
  assumes lg: "\<forall>a. length (fst (grad a)) = length a \<and> length (snd (grad a)) = length a"
    and ld: "\<forall>a. length (diff a levels) = length a"
    and zg: "\<forall>a. getgrad a = grad (filled a)"
    and zd: "\<forall>a. gradient_1d a levels = diff (filled a) levels"
    and lphi: "length phi = length scalar"
    and phi: "\<forall>i < length scalar. scalar ! i = None \<or> scalar ! i = Some (phi ! i)"
    and lind: "length ind = length scalar"
    and ind: "\<forall>i < length scalar. ind ! i = (if scalar ! i = None then 0 else 1)"
    and zf: "zf = map2 (*) ind phi"
  shows "(is_masked scalar \<longrightarrow>
            horizontal_gradient getgrad scalar
              = (map (\<lambda>i. if scalar ! i = None then None
                          else Some (fst (grad zf) ! i - zf ! i * fst (grad ind) ! i))
                   [0..<length scalar],
                 map (\<lambda>i. if scalar ! i = None then None
                          else Some (snd (grad zf) ! i - zf ! i * snd (grad ind) ! i))
                   [0..<length scalar])
          \<and> vertical_gradient gradient_1d levels scalar
              = map (\<lambda>i. if scalar ! i = None then None
                         else Some (diff zf levels ! i - zf ! i * diff ind levels ! i))
                  [0..<length scalar])
       \<and> (\<not> is_masked scalar \<longrightarrow>
            horizontal_gradient getgrad scalar
              = (map Some (fst (grad phi)), map Some (snd (grad phi)))
          \<and> vertical_gradient gradient_1d levels scalar = map Some (diff phi levels))"
proof -
  have fl: "filled scalar = zf"
    unfolding zf filled_def
    using lphi lind phi ind by (intro nth_equalityI) (auto split: option.splits)
  have mi: "mask_indicator scalar = ind"
    unfolding mask_indicator_def
    using lind ind by (intro nth_equalityI) (auto split: option.splits)
  have gs: "getgrad scalar = grad zf" using zg fl by simp
  have gb: "getgrad (map Some (mask_indicator scalar)) = grad ind"
    using zg by (simp add: filled_plain mi)
  have ds: "gradient_1d scalar levels = diff zf levels" using zd fl by simp
  have db: "gradient_1d (map Some (mask_indicator scalar)) levels = diff ind levels"
    using zd by (simp add: filled_plain mi)
  have lb: "length zf = length scalar" using lphi lind by (simp add: zf)
  note comb = masked_combination_total [OF _ _ lphi lind phi ind, folded zf]
  have h: "plain_minus_masked (fst (grad zf)) (plain_times_masked (fst (grad ind)) scalar)
      = map (\<lambda>i. if scalar ! i = None then None
                 else Some (fst (grad zf) ! i - zf ! i * fst (grad ind) ! i))
          [0..<length scalar]"
    using lg lb lind by (intro comb) simp_all
  have k: "plain_minus_masked (snd (grad zf)) (plain_times_masked (snd (grad ind)) scalar)
      = map (\<lambda>i. if scalar ! i = None then None
                 else Some (snd (grad zf) ! i - zf ! i * snd (grad ind) ! i))
          [0..<length scalar]"
    using lg lb lind by (intro comb) simp_all
  have v: "plain_minus_masked (diff zf levels) (plain_times_masked (diff ind levels) scalar)
      = map (\<lambda>i. if scalar ! i = None then None
                 else Some (diff zf levels ! i - zf ! i * diff ind levels ! i))
          [0..<length scalar]"
    using ld lb lind by (intro comb) simp_all
  show ?thesis
  proof (cases "is_masked scalar")
    case True
    then show ?thesis
      unfolding horizontal_gradient_def vertical_gradient_def Let_def gs gb ds db
      by (simp only: h k v if_True simp_thms)
  next
    case False
    then have "\<forall>i < length scalar. scalar ! i \<noteq> None"
      by (auto simp: is_masked_def list_ex_iff in_set_conv_nth)
    with ind have "\<forall>i < length scalar. ind ! i = 1" by fastforce
    then have "zf = phi"
      unfolding zf using lphi lind by (intro nth_equalityI) simp_all
    with False show ?thesis
      unfolding horizontal_gradient_def vertical_gradient_def Let_def gs gb ds db
      by (simp only: if_False simp_thms)
  qed
qed

theorem masked_gradient_identity_witness:
  "horizontal_gradient (\<lambda>a. example_getgrad (filled a)) [Some 1, None, Some 3]
     = ([Some 0, None, Some (- 2)], [Some (- 2), None, Some 0])
   \<and> vertical_gradient (\<lambda>a levels. example_gradient_1d (filled a) levels) [2]
       [Some 1, None, Some 3]
     = [Some 0, None, Some (- 4)]
   \<and> horizontal_gradient (\<lambda>a. example_getgrad (filled a)) [Some 1, Some 7, Some 3]
     = ([Some 6, Some (- 4), Some (- 2)], [Some (- 2), Some 6, Some (- 4)])"
proof -
  have m: "is_masked [Some (1::real), None, Some 3]" by (simp add: is_masked_def)
  have u: "\<not> is_masked [Some (1::real), Some 7, Some 3]" by (simp add: is_masked_def)
  have lg: "\<forall>a. length (fst (example_getgrad a)) = length a
                \<and> length (snd (example_getgrad a)) = length a"
    by (simp add: example_getgrad_def)
  have ld: "\<forall>a. length (example_gradient_1d a [2]) = length a"
    by (simp add: example_gradient_1d_def)
  have a: "horizontal_gradient (\<lambda>a. example_getgrad (filled a)) [Some 1, None, Some 3]
     = ([Some 0, None, Some (- 2)], [Some (- 2), None, Some 0])
   \<and> vertical_gradient (\<lambda>a levels. example_gradient_1d (filled a) levels) [2]
       [Some 1, None, Some 3]
     = [Some 0, None, Some (- 4)]"
    using masked_gradient_identity
      [of example_getgrad example_gradient_1d "[2]" "\<lambda>a. example_getgrad (filled a)"
          "\<lambda>a levels. example_gradient_1d (filled a) levels" "[1, 7, 3]"
          "[Some 1, None, Some 3]" "[1, 0, 1]" "[1, 0, 3]", OF lg ld] m
    by (simp add: All_less_Suc example_getgrad_def example_gradient_1d_def upt_conv_Cons)
  have b: "horizontal_gradient (\<lambda>a. example_getgrad (filled a)) [Some 1, Some 7, Some 3]
     = ([Some 6, Some (- 4), Some (- 2)], [Some (- 2), Some 6, Some (- 4)])"
    using masked_gradient_identity
      [of example_getgrad example_gradient_1d "[2]" "\<lambda>a. example_getgrad (filled a)"
          "\<lambda>a levels. example_gradient_1d (filled a) levels" "[1, 7, 3]"
          "[Some 1, Some 7, Some 3]" "[1, 1, 1]" "[1, 7, 3]", OF lg ld] u
    by (simp add: All_less_Suc example_getgrad_def example_gradient_1d_def upt_conv_Cons)
  from a b show ?thesis by simp
qed

section \<open>Properties of the conversion terms\<close>

lemma and_then_Inr: "and_then r f = Inr y \<Longrightarrow> \<exists>x. r = Inr x \<and> f x = Inr y"
  by (cases r) (simp_all add: and_then_def)

lemma and_then_simps [simp]: "and_then (Inr x) f = f x" "and_then (Inl e) f = Inl e"
  by (simp_all add: and_then_def)

lemma wf_nd_map: "wf a \<Longrightarrow> wf (nd_map f a)"
  by (simp add: wf_def nd_map_def)

lemma inplace_wf: "inplace f a b = Inr r \<Longrightarrow> wf r"
  by (auto simp: inplace_def dest!: and_then_Inr elementwise_wf split: if_splits)

lemma conversion_dke_rke_vertical_wf:
  "conversion_dke_rke_vertical ext self = Inr w \<Longrightarrow> wf w"
  unfolding conversion_dke_rke_vertical_def
  by (auto dest!: and_then_Inr inplace_wf intro: wf_nd_map)

lemma conversion_dke_rke_coriolis_wf:
  "conversion_dke_rke_coriolis ext self = Inr w \<Longrightarrow> wf w"
  unfolding conversion_dke_rke_coriolis_def
  by (auto dest!: and_then_Inr elementwise_wf intro: wf_nd_map)

lemma conversion_dke_rke_vorticity_wf:
  "conversion_dke_rke_vorticity ext self = Inr w \<Longrightarrow> wf w"
  unfolding conversion_dke_rke_vorticity_def
  by (auto dest!: and_then_Inr elementwise_wf intro: wf_nd_map)

lemma add_same_shape:
  assumes "shape a = shape b" and "wf a" and "wf b"
  shows "elementwise (+) a b = Inr \<lparr>shape = shape a, data = map2 (+) (data a) (data b)\<rparr>"
    and "wf \<lparr>shape = shape a, data = map2 (+) (data a) (data b)\<rparr>"
  using assms by (simp_all add: elementwise_same_shape wf_def)

text \<open>
  C4: when the three mechanisms return spectra (of one shape, as every spectrum of the
  engine has), the total conversion returns a spectrum too, the sum of the vertical, the
  vorticity and the Coriolis term equals it, and the flux dataset holds the three terms
  under their own names next to the total. Floats are real numbers here, so the order
  of the additions does not matter.
\<close>

theorem conversion_dke_rke_closure:
  assumes "conversion_dke_rke_vertical ext self = Inr w"
    and "conversion_dke_rke_vorticity ext self = Inr v"
    and "conversion_dke_rke_coriolis ext self = Inr c"
    and "shape w = shape v" and "shape v = shape c"
  shows "\<exists>total. conversion_dke_rke ext self = Inr total
           \<and> and_then (elementwise (+) w v) (\<lambda>wv. elementwise (+) wv c) = Inr total
           \<and> (\<exists>fluxes. nonlinear_energy_fluxes ext self = Inr fluxes
                 \<and> fluxes ''cdr_w'' = Some w \<and> fluxes ''cdr_v'' = Some v
                 \<and> fluxes ''cdr_c'' = Some c \<and> fluxes ''cdr'' = Some total)"
proof -
  have wf: "wf w" "wf v" "wf c"
    using assms(1-3)
    by (auto intro: conversion_dke_rke_vertical_wf conversion_dke_rke_vorticity_wf
        conversion_dke_rke_coriolis_wf)
  define vc where "vc = \<lparr>shape = shape v, data = map2 (+) (data v) (data c)\<rparr>"
  define wv where "wv = \<lparr>shape = shape w, data = map2 (+) (data w) (data v)\<rparr>"
  define total where "total = \<lparr>shape = shape vc, data = map2 (+) (data vc) (data w)\<rparr>"
  have vc: "elementwise (+) v c = Inr vc" "wf vc"
    using add_same_shape [OF assms(5) wf(2,3)] by (simp_all add: vc_def)
  have wv: "elementwise (+) w v = Inr wv" "wf wv"
    using add_same_shape [OF assms(4) wf(1,2)] by (simp_all add: wv_def)
  have "shape vc = shape w" by (simp add: vc_def assms(4))
  then have t1: "elementwise (+) vc w = Inr total"
    using add_same_shape(1) [of vc w] vc(2) wf(1) by (simp add: total_def)
  have len: "length (data w) = length (data v)" "length (data v) = length (data c)"
    using wf assms(4,5) by (simp_all add: wf_def)
  have "shape wv = shape c" by (simp add: wv_def assms(4,5))
  then have "elementwise (+) wv c
      = Inr \<lparr>shape = shape wv, data = map2 (+) (data wv) (data c)\<rparr>"
    using add_same_shape(1) [of wv c] wv(2) wf(3) by simp
  also have "\<lparr>shape = shape wv, data = map2 (+) (data wv) (data c)\<rparr> = total"
    using len by (auto simp: wv_def total_def vc_def assms(4) intro!: nth_equalityI)
  finally have t2: "elementwise (+) wv c = Inr total" .
  have "conversion_dke_rke ext self = Inr total"
    by (simp add: conversion_dke_rke_def assms(1-3) vc(1) t1)
  moreover have "and_then (elementwise (+) w v) (\<lambda>wv. elementwise (+) wv c) = Inr total"
    by (simp add: wv(1) t2)
  moreover have "nonlinear_energy_fluxes ext self
      = Inr (Map.empty(''cdr_w'' \<mapsto> w, ''cdr_v'' \<mapsto> v, ''cdr_c'' \<mapsto> c, ''cdr'' \<mapsto> total))"
    by (simp add: nonlinear_energy_fluxes_def assms(1-3) wv(1) t2)
  ultimately show ?thesis by (intro exI [of _ total]) simp
qed

lemma elementwise_single:
  "prod_list s = 1 \<Longrightarrow>
   elementwise f \<lparr>shape = s, data = [x]\<rparr> \<lparr>shape = s, data = [y]\<rparr>
     = Inr \<lparr>shape = s, data = [f x y]\<rparr>"
  by (simp add: elementwise_same_shape wf_def)

lemma example_vector_spectra:
  "sb_vector_spectra example_collaborators example_seba a (Some b)
     = Inr \<lparr>shape = [Suc 0, Suc 0, Suc 0], data = [a * b]\<rparr>"
proof -
  have cs: "sb_cross_spectrum example_collaborators example_seba
              \<lparr>shape = [Suc 0, Suc 0, Suc 0], data = [x]\<rparr>
              (Some \<lparr>shape = [Suc 0, Suc 0, Suc 0], data = [y]\<rparr>) True
            = Inr \<lparr>shape = [Suc 0, Suc 0, Suc 0], data = [Re (x * cnj y)]\<rparr>" for x y
    using elementwise_suffix [of "\<lparr>shape = [Suc 0, Suc 0, Suc 0], data = [Re (x * cnj y)]\<rparr>"
        "[Suc 0]" "\<lparr>shape = [Suc 0, Suc 0], data = [1::real]\<rparr>" "(/)"]
    by (simp add: sb_cross_spectrum_def accumulate_order_def example_collaborators_def
        example_seba_def nd_map_def Let_def)
  have add: "inplace (+) \<lparr>shape = [Suc 0, Suc 0, Suc 0], data = [x]\<rparr>
               \<lparr>shape = [Suc 0, Suc 0, Suc 0], data = [y]\<rparr>
             = Inr \<lparr>shape = [Suc 0, Suc 0, Suc 0], data = [x + y]\<rparr>" for x y :: real
    by (simp add: inplace_def elementwise_single)
  have nrm: "sb_norm example_seba = \<lparr>shape = [Suc 0, Suc 0, Suc 0], data = [1]\<rparr>"
    by (simp add: example_seba_def)
  have rd: "compute_rotdiv example_collaborators v
      = (\<lparr>shape = [Suc 0, Suc 0, Suc 0], data = [complex_of_real v]\<rparr>,
         \<lparr>shape = [Suc 0, Suc 0, Suc 0], data = [0]\<rparr>)" for v
    by (simp add: example_collaborators_def)
  have vs: "vshape example_collaborators b = vshape example_collaborators a"
    by (simp add: example_collaborators_def)
  show ?thesis
    unfolding sb_vector_spectra_def
    by (simp add: rd vs cs add nrm elementwise_single)
qed

theorem conversion_dke_rke_closure_witness:
  "conversion_dke_rke example_collaborators example_seba
     = Inr \<lparr>shape = [Suc 0, Suc 0, Suc 0], data = [- 29]\<rparr>
   \<and> and_then (elementwise (+) \<lparr>shape = [Suc 0, Suc 0, Suc 0], data = [- 35]\<rparr>
                  \<lparr>shape = [Suc 0, Suc 0, Suc 0], data = [4]\<rparr>)
        (\<lambda>wv. elementwise (+) wv \<lparr>shape = [Suc 0, Suc 0, Suc 0], data = [2]\<rparr>)
      = Inr \<lparr>shape = [Suc 0, Suc 0, Suc 0], data = [- 29 :: real]\<rparr>"
proof -
  have fields: "omega example_seba = 5" "vrt example_seba = 4" "wind_shear example_seba = 7"
    "wind_div example_seba = 3" "wind_rot example_seba = 1" "fc example_seba = 2"
    by (simp_all add: example_seba_def)
  have ops: "stimes example_collaborators x y = x * y" "vtimes example_collaborators x y = x * y"
    "rotate_vector example_collaborators x = x + 1" for x y
    by (simp_all add: example_collaborators_def)
  have w: "conversion_dke_rke_vertical example_collaborators example_seba
             = Inr \<lparr>shape = [Suc 0, Suc 0, Suc 0], data = [- 35]\<rparr>"
    by (simp add: conversion_dke_rke_vertical_def example_vector_spectra inplace_def
        elementwise_single nd_map_def fields ops)
  have v: "conversion_dke_rke_vorticity example_collaborators example_seba
             = Inr \<lparr>shape = [Suc 0, Suc 0, Suc 0], data = [4]\<rparr>"
    by (simp add: conversion_dke_rke_vorticity_def example_vector_spectra
        elementwise_single nd_map_def fields ops)
  have c: "conversion_dke_rke_coriolis example_collaborators example_seba
             = Inr \<lparr>shape = [Suc 0, Suc 0, Suc 0], data = [2]\<rparr>"
    by (simp add: conversion_dke_rke_coriolis_def example_vector_spectra
        elementwise_single nd_map_def fields ops)
  from conversion_dke_rke_closure [OF w v c] obtain total where
    t: "conversion_dke_rke example_collaborators example_seba = Inr total"
       "and_then (elementwise (+) \<lparr>shape = [Suc 0, Suc 0, Suc 0], data = [- 35]\<rparr>
                    \<lparr>shape = [Suc 0, Suc 0, Suc 0], data = [4]\<rparr>)
          (\<lambda>wv. elementwise (+) wv \<lparr>shape = [Suc 0, Suc 0, Suc 0], data = [2]\<rparr>) = Inr total"
    by auto
  have "total = \<lparr>shape = [Suc 0, Suc 0, Suc 0], data = [- 29]\<rparr>"
    using t(2) by (simp add: elementwise_single)
  with t show ?thesis by simp
qed

section \<open>Properties of the mask correction of the cross-spectrum\<close>

lemma accumulate_order_shape:
  "accumulate_order ext self cs = Inr sp \<Longrightarrow> shape sp = (sb_truncation self + 1) # tl (shape cs)"
  by (auto simp: accumulate_order_def Let_def split: list.splits if_splits)

lemma accumulate_order_wf:
  "accumulate_order ext self cs = Inr sp \<Longrightarrow> wf (integrate_order ext packed n) \<Longrightarrow>
     \<forall>a m. wf (integrate_order ext a m) \<Longrightarrow> wf sp"
  by (auto simp: accumulate_order_def Let_def wf_def split: list.splits if_splits)

lemma init_beta_fields:
  assumes "init_beta self0 data_mask = Inr self"
  shows "\<exists>fraction. representative_mean self0 (nd_map (\<lambda>m. if m then 0 else 1) data_mask) = Inr fraction
           \<and> self = self0\<lparr>beta := nd_map (\<lambda>m. if m then 0 else 1) data_mask,
                            beta_fraction := fraction\<rparr>"
  using assms by (auto simp: init_beta_def Let_def dest!: and_then_Inr)

lemma grid_index_less:
  assumes "i < a" and "j < b" and "k < (c::nat)"
  shows "(i * b + j) * c + k < a * b * c"
proof -
  have "i * b + j < (i + 1) * b" using assms(2) by simp
  also have "\<dots> \<le> a * b" using assms(1) by (intro mult_le_mono1) simp
  finally have "i * b + j + 1 \<le> a * b" by simp
  then have "(i * b + j + 1) * c \<le> a * b * c" by (rule mult_le_mono1)
  moreover have "(i * b + j) * c + k < (i * b + j + 1) * c" using assms(3) by simp
  ultimately show ?thesis by simp
qed

text \<open>
  C2: on the dataset-based engine, \<open>beta_fraction\<close> is, for every sample and level,
  the mean over longitude of the latitude-weighted average of the mask indicator
  \<open>\<beta>\<close>, and every value the cross-spectrum returns is the real part of the (binned or
  unbinned) product of the coefficients divided by the \<open>beta_fraction\<close> of its sample
  and level. A level without any valid point would divide by zero, which the real
  numbers do not represent; it is excluded. Arrays hold as many elements as their
  shape says.
\<close>

theorem cross_spectrum_divided_by_beta_fraction:
  assumes init: "init_beta self0 data_mask = Inr self"
    and dims: "shape data_mask = [sb_nlat self0, sb_nlon self0, sb_samples self0, sb_nlevels self0]"
    and wfm: "wf data_mask"
    and sh: "shape clm1 = [n, sb_samples self0, sb_nlevels self0]"
    and wf1: "wf clm1"
    and c2: "case clm2 of None \<Rightarrow> other = clm1
             | Some c \<Rightarrow> other = c \<and> shape c = shape clm1 \<and> wf c"
    and wfi: "\<forall>a m. wf (integrate_order ext a m)"
    and nz: "\<forall>x \<in> set (data (beta_fraction self)). x \<noteq> 0"
    and product: "product = \<lparr>shape = shape clm1,
                              data = map2 (\<lambda>a b. a * cnj b) (data clm1) (data other)\<rparr>"
    and size: "sl = sb_samples self0 * sb_nlevels self0"
  shows "beta_fraction self =
           \<lparr>shape = [sb_samples self0, sb_nlevels self0],
            data = map (\<lambda>k. (\<Sum>j\<leftarrow>[0..<sb_nlon self0].
                       (\<Sum>i\<leftarrow>[0..<sb_nlat self0]. weights self0 ! i
                            * (if data data_mask ! ((i * sb_nlon self0 + j) * sl + k) then 0 else 1))
                         / sum_list (weights self0))
                     / real (sb_nlon self0)) [0..<sl]\<rparr>
       \<and> sb_cross_spectrum ext self clm1 clm2 accumulate =
           and_then (if accumulate then accumulate_order ext self product else Inr product)
             (\<lambda>spectrum. Inr \<lparr>shape = shape spectrum,
                  data = map (\<lambda>k. Re (data spectrum ! k) / data (beta_fraction self) ! (k mod sl))
                           [0..<prod_list (shape spectrum)]\<rparr>)"
proof -
  define b :: "real ndarray" where "b = nd_map (\<lambda>m. if m then 0 else 1) data_mask"
  from init_beta_fields [OF init] obtain fraction where
    rm: "representative_mean self0 b = Inr fraction"
    and self: "self = self0\<lparr>beta := b, beta_fraction := fraction\<rparr>"
    by (auto simp: b_def)
  have bsh: "shape b = [sb_nlat self0, sb_nlon self0, sb_samples self0, sb_nlevels self0]"
    by (simp add: b_def nd_map_def dims)
  have lenm: "length (data data_mask) = sb_nlat self0 * sb_nlon self0 * sl"
    using wfm by (simp add: wf_def dims size mult.assoc)
  have bdata: "data b ! ((i * sb_nlon self0 + j) * sl + k)
                 = (if data data_mask ! ((i * sb_nlon self0 + j) * sl + k) then 0 else 1)"
    if "i < sb_nlat self0" "j < sb_nlon self0" "k < sl" for i j k
    using grid_index_less [OF that] lenm by (simp add: b_def nd_map_def)
  have bf: "beta_fraction self = fraction" by (simp add: self)
  have fr: "fraction = \<lparr>shape = [sb_samples self0, sb_nlevels self0],
            data = map (\<lambda>k. (\<Sum>j\<leftarrow>[0..<sb_nlon self0].
                       (\<Sum>i\<leftarrow>[0..<sb_nlat self0]. weights self0 ! i
                            * data b ! ((i * sb_nlon self0 + j) * sl + k))
                         / sum_list (weights self0))
                     / real (sb_nlon self0)) [0..<sl]\<rparr>"
    using rm by (auto simp: representative_mean_def bsh Let_def size split: if_splits)
  have part1: "beta_fraction self =
           \<lparr>shape = [sb_samples self0, sb_nlevels self0],
            data = map (\<lambda>k. (\<Sum>j\<leftarrow>[0..<sb_nlon self0].
                       (\<Sum>i\<leftarrow>[0..<sb_nlat self0]. weights self0 ! i
                            * (if data data_mask ! ((i * sb_nlon self0 + j) * sl + k) then 0 else 1))
                         / sum_list (weights self0))
                     / real (sb_nlon self0)) [0..<sl]\<rparr>"
  proof -
    have inner: "(\<Sum>i\<leftarrow>[0..<sb_nlat self0]. weights self0 ! i
                     * data b ! ((i * sb_nlon self0 + j) * sl + k))
        = (\<Sum>i\<leftarrow>[0..<sb_nlat self0]. weights self0 ! i
                     * (if data data_mask ! ((i * sb_nlon self0 + j) * sl + k) then 0 else 1))"
      if "j < sb_nlon self0" "k < sl" for j k
      using that by (intro arg_cong [where f = sum_list] map_cong refl) (simp add: bdata)
    have mid: "(\<Sum>j\<leftarrow>[0..<sb_nlon self0].
                  (\<Sum>i\<leftarrow>[0..<sb_nlat self0]. weights self0 ! i
                     * data b ! ((i * sb_nlon self0 + j) * sl + k)) / sum_list (weights self0))
        = (\<Sum>j\<leftarrow>[0..<sb_nlon self0].
                  (\<Sum>i\<leftarrow>[0..<sb_nlat self0]. weights self0 ! i
                     * (if data data_mask ! ((i * sb_nlon self0 + j) * sl + k) then 0 else 1))
                    / sum_list (weights self0))"
      if "k < sl" for k
      using that by (intro arg_cong [where f = sum_list] map_cong refl) (simp add: inner)
    have "map (\<lambda>k. (\<Sum>j\<leftarrow>[0..<sb_nlon self0].
                  (\<Sum>i\<leftarrow>[0..<sb_nlat self0]. weights self0 ! i
                     * data b ! ((i * sb_nlon self0 + j) * sl + k)) / sum_list (weights self0))
                 / real (sb_nlon self0)) [0..<sl]
        = map (\<lambda>k. (\<Sum>j\<leftarrow>[0..<sb_nlon self0].
                  (\<Sum>i\<leftarrow>[0..<sb_nlat self0]. weights self0 ! i
                     * (if data data_mask ! ((i * sb_nlon self0 + j) * sl + k) then 0 else 1))
                    / sum_list (weights self0))
                 / real (sb_nlon self0)) [0..<sl]"
      by (intro map_cong refl) (simp add: mid)
    then show ?thesis unfolding bf fr by (simp only:)
  qed
  have shf: "shape fraction = [sb_samples self0, sb_nlevels self0]"
    and pf: "prod_list (shape fraction) = sl"
    by (simp_all add: fr size)
  have oth: "(case clm2 of None \<Rightarrow> Inr clm1
              | Some c2 \<Rightarrow> if shape c2 = shape clm1 then Inr c2
                  else Inl (AssertionError ''Arrays clm1 and clm2 must have the same shape.''))
             = Inr other"
    using c2 by (cases clm2) simp_all
  have wfo: "wf other" "shape other = shape clm1"
    using c2 wf1 by (auto split: option.splits)
  have wfp: "wf product"
    using wf1 wfo by (simp add: product wf_def)
  have divide: "elementwise (/) (nd_map Re sp) fraction
        = Inr \<lparr>shape = shape sp,
               data = map (\<lambda>k. Re (data sp ! k) / data fraction ! (k mod sl))
                        [0..<prod_list (shape sp)]\<rparr>"
    if "shape sp = d # [sb_samples self0, sb_nlevels self0]" and "wf sp" for sp d
  proof -
    have "shape (nd_map Re sp) = [d] @ shape fraction"
      using that(1) by (simp add: nd_map_def shf)
    from elementwise_suffix [OF this, of "(/)"]
    have "elementwise (/) (nd_map Re sp) fraction
        = Inr \<lparr>shape = shape sp,
               data = map (\<lambda>k. data (nd_map Re sp) ! k / data fraction ! (k mod sl))
                        [0..<prod_list (shape sp)]\<rparr>"
      by (simp add: pf nd_map_def)
    moreover have "map (\<lambda>k. data (nd_map Re sp) ! k / data fraction ! (k mod sl))
                        [0..<prod_list (shape sp)]
       = map (\<lambda>k. Re (data sp ! k) / data fraction ! (k mod sl)) [0..<prod_list (shape sp)]"
      using that(2) by (intro map_cong refl) (simp add: nd_map_def wf_def)
    ultimately show ?thesis by simp
  qed
  have unf: "sb_cross_spectrum ext self clm1 clm2 accumulate =
           and_then (if accumulate then accumulate_order ext self product else Inr product)
             (\<lambda>spectrum. elementwise (/) (nd_map Re spectrum) (beta_fraction self))"
    unfolding sb_cross_spectrum_def oth product Let_def by simp
  have part2: "sb_cross_spectrum ext self clm1 clm2 accumulate =
           and_then (if accumulate then accumulate_order ext self product else Inr product)
             (\<lambda>spectrum. Inr \<lparr>shape = shape spectrum,
                  data = map (\<lambda>k. Re (data spectrum ! k) / data (beta_fraction self) ! (k mod sl))
                           [0..<prod_list (shape spectrum)]\<rparr>)"
  proof (cases "if accumulate then accumulate_order ext self product else Inr product")
    case (Inl e)
    then show ?thesis
      unfolding unf by simp
  next
    case (Inr sp)
    have "shape sp = hd (shape sp) # [sb_samples self0, sb_nlevels self0] \<and> wf sp"
    proof (cases accumulate)
      case True
      with Inr have a: "accumulate_order ext self product = Inr sp" by simp
      from accumulate_order_shape [OF a] accumulate_order_wf [OF a] wfi
      show ?thesis by (simp add: product sh)
    next
      case False
      with Inr have "sp = product" by simp
      then show ?thesis using wfp by (simp add: product sh)
    qed
    then have "elementwise (/) (nd_map Re sp) fraction
        = Inr \<lparr>shape = shape sp,
               data = map (\<lambda>k. Re (data sp ! k) / data fraction ! (k mod sl))
                        [0..<prod_list (shape sp)]\<rparr>"
      using divide [of sp "hd (shape sp)"] by simp
    with Inr show ?thesis
      unfolding unf by (simp add: bf)
  qed
  from part1 part2 show ?thesis by (rule conjI)
qed

theorem cross_spectrum_divided_by_beta_fraction_witness:
  "\<exists>self. init_beta (example_seba\<lparr>sb_nlon := 2\<rparr>) \<lparr>shape = [1, 2, 1, 1], data = [False, True]\<rparr>
             = Inr self
     \<and> beta_fraction self = \<lparr>shape = [1, 1], data = [1 / 2]\<rparr>
     \<and> sb_cross_spectrum example_collaborators self \<lparr>shape = [1, 1, 1], data = [2]\<rparr> None True
         = Inr \<lparr>shape = [1, 1, 1], data = [8]\<rparr>"
proof -
  let ?self0 = "example_seba\<lparr>sb_nlon := 2\<rparr>"
  let ?mask = "\<lparr>shape = [1, 2, 1, 1], data = [False, True]\<rparr>"
  let ?clm = "\<lparr>shape = [1, 1, 1], data = [2 :: complex]\<rparr>"
  have f: "sb_nlat ?self0 = 1" "sb_nlon ?self0 = 2" "sb_samples ?self0 = 1" "sb_nlevels ?self0 = 1"
    "weights ?self0 = [1]"
    by (simp_all add: example_seba_def)
  have rm: "representative_mean ?self0 (nd_map (\<lambda>m. if m then 0 else 1) ?mask)
              = Inr \<lparr>shape = [1, 1], data = [1 / 2]\<rparr>"
    by (simp add: representative_mean_def nd_map_def Let_def example_seba_def upt_conv_Cons
        numeral_2_eq_2)
  obtain self where self: "init_beta ?self0 ?mask = Inr self"
    unfolding init_beta_def Let_def rm by simp
  then have bf: "beta_fraction self = \<lparr>shape = [1, 1], data = [1 / 2]\<rparr>"
    unfolding init_beta_def Let_def rm by auto
  have dims: "shape ?mask = [sb_nlat ?self0, sb_nlon ?self0, sb_samples ?self0, sb_nlevels ?self0]"
    by (simp add: f)
  have wfm: "wf ?mask" by (simp add: wf_def)
  have sh: "shape ?clm = [1, sb_samples ?self0, sb_nlevels ?self0]" by (simp add: f)
  have wf1: "wf ?clm" by (simp add: wf_def)
  have c2: "case None of None \<Rightarrow> ?clm = ?clm | Some c \<Rightarrow> ?clm = c \<and> shape c = shape ?clm \<and> wf c"
    by simp
  have wfi: "\<forall>a m. wf (integrate_order example_collaborators a m)"
    by (simp add: example_collaborators_def wf_def)
  have nz: "\<forall>x \<in> set (data (beta_fraction self)). x \<noteq> 0" by (simp add: bf)
  have acc: "accumulate_order example_collaborators self \<lparr>shape = [Suc 0, Suc 0, Suc 0], data = [4]\<rparr>
               = Inr \<lparr>shape = [Suc 0, Suc 0, Suc 0], data = [4]\<rparr>"
    using self
    by (auto simp: accumulate_order_def example_collaborators_def Let_def init_beta_def
        example_seba_def dest!: and_then_Inr)
  show ?thesis
    using self bf acc
      cross_spectrum_divided_by_beta_fraction [OF self dims wfm sh wf1 c2 wfi nz refl refl,
        of True]
    by (simp add: f)
qed

section \<open>Properties of the normalisation of the vector cross-spectrum\<close>

lemma concat_replicate_nth:
  "n < length xs \<Longrightarrow> j < m \<Longrightarrow> concat (map (\<lambda>x. replicate m x) xs) ! (n * m + j) = xs ! n"
proof (induction xs arbitrary: n)
  case Nil
  then show ?case by simp
next
  case (Cons x xs)
  show ?case
  proof (cases n)
    case 0
    with Cons.prems show ?thesis by (simp add: nth_append)
  next
    case (Suc n')
    with Cons.prems have "concat (map (\<lambda>x. replicate m x) xs) ! (n' * m + j) = xs ! n'"
      by (intro Cons.IH) simp_all
    with Suc show ?thesis by (simp add: nth_append add.assoc)
  qed
qed

lemma kappa_squared:
  "n < length ls \<Longrightarrow>
     map (\<lambda>k. k ^ 2) (kappa_from_deg R ls) ! n = real (ls ! n) * (real (ls ! n) + 1) / R ^ 2"
  by (simp add: kappa_from_deg_def power_divide)

lemma init_engine_vector_norm:
  assumes "init_engine R info p truncation_arg = Inr self"
  shows "vector_norm self = \<lparr>shape = [truncation self + 1, 1, 1],
            data = (map (\<lambda>k. k ^ 2) (kappa_from_deg R [0..<truncation self + 1]))[0 := 1]\<rparr>"
  using assms
  by (auto simp: init_engine_def Let_def init_info.defs simp del: upt_Suc
      split: if_splits option.splits sum.splits)

lemma elementwise_leading:
  assumes x: "shape x = [n, a, b]" and y: "shape y = [n, 1, 1]"
  shows "elementwise f x y = Inr \<lparr>shape = [n, a, b],
           data = map (\<lambda>k. f (data x ! k) (data y ! (k div (a * b)))) [0..<n * a * b]\<rparr>"
proof -
  have y': "shape y = [n, Suc 0, Suc 0]" using y by simp
  have bs: "broadcast_shape [n, a, b] [n, Suc 0, Suc 0] = Some [n, a, b]"
    by (simp add: broadcast_shape_def)
  have ix: "broadcast_index [n, a, b] [n, a, b] k = k" if "k < n * a * b" for k
    using that by (intro broadcast_index_same) (simp add: mult.assoc)
  have iy: "broadcast_index [n, Suc 0, Suc 0] [n, a, b] k = k div (a * b)"
    if "k < n * a * b" for k
  proof (cases "n = Suc 0")
    case True
    with that have "k div (a * b) = 0" by simp
    with True show ?thesis by (simp add: broadcast_index_def)
  next
    case False
    then show ?thesis by (simp add: broadcast_index_def)
  qed
  have "map (\<lambda>k. f (data x ! broadcast_index [n, a, b] [n, a, b] k)
                   (data y ! broadcast_index [n, Suc 0, Suc 0] [n, a, b] k)) [0..<n * a * b]
        = map (\<lambda>k. f (data x ! k) (data y ! (k div (a * b)))) [0..<n * a * b]"
    by (intro map_cong refl) (simp add: ix iy)
  then show ?thesis
    unfolding elementwise_def x y' bs by (simp add: mult.assoc)
qed

lemma map2_as_map:
  "length xs = n \<Longrightarrow> length ys = n \<Longrightarrow>
     map2 f xs ys = map (\<lambda>k. f (xs ! k) (ys ! k)) [0..<n]"
  by (intro nth_equalityI) simp_all

text \<open>
  C3 (amended): both engines divide the vector cross-spectrum by a normalisation built
  from \<open>n(n+1)/r\<^sup>2\<close> and made nonzero at degree 0, each in its own way. The
  array-based engine sets the degree-0 entry to 1 and keeps \<open>n(n+1)/r\<^sup>2\<close> at every
  degree \<open>n \<ge> 1\<close>. The dataset-based engine clips the whole normalisation from below
  at \<open>cn.epsilon\<close>: the entry of degree \<open>n\<close> is the larger of \<open>cn.epsilon\<close> and
  \<open>n(n+1)/r\<^sup>2\<close>, and the degree-0 entries are \<open>cn.epsilon\<close>. When the sum of the two
  cross-spectra has the three axes degree, sample and level, the vector cross-spectrum
  is returned, and its value at every position is that sum at the position divided by
  the entry of the position's own degree. With a nonzero radius, and a positive
  \<open>cn.epsilon\<close>, every entry is positive, so no division by zero occurs at degree 0.
\<close>

theorem vector_spectra_divide_by_own_degree:
  assumes eng: "init_engine R info p truncation_arg = Inr self"
    and sb: "sb = init_norm epsilon R sb0"
    and R: "R \<noteq> 0" and eps: "0 < epsilon"
    and sl: "sl = sb_samples sb0 * sb_nlevels sb0"
  shows "data (vector_norm self) ! 0 = 1
       \<and> (\<forall>n. 0 < n \<and> n \<le> truncation self
              \<longrightarrow> data (vector_norm self) ! n = real n * (real n + 1) / R ^ 2)
       \<and> (\<forall>d \<in> set (data (vector_norm self)). 0 < d)
       \<and> (\<forall>rot dv s a b.
              cross_spectrum self (fst (rotdiv v1)) (map_option fst (map_option rotdiv v2))
                None ''power'' = Inr rot
            \<and> cross_spectrum self (snd (rotdiv v1)) (map_option snd (map_option rotdiv v2))
                None ''power'' = Inr dv
            \<and> elementwise (+) rot dv = Inr s
            \<and> shape s = [truncation self + 1, a, b]
            \<longrightarrow> vector_spectra rotdiv self v1 v2
                  = Inr \<lparr>shape = [truncation self + 1, a, b],
                         data = map (\<lambda>k. data s ! k
                                      / (if k div (a * b) = 0 then 1
                                         else real (k div (a * b)) * (real (k div (a * b)) + 1)
                                              / R ^ 2))
                                  [0..<(truncation self + 1) * a * b]\<rparr>)
       \<and> (\<forall>n j. n \<le> sb_truncation sb0 \<and> j < sl
              \<longrightarrow> data (sb_norm sb) ! (n * sl + j) = max epsilon (real n * (real n + 1) / R ^ 2))
       \<and> (\<forall>j < sl. data (sb_norm sb) ! j = epsilon)
       \<and> (\<forall>d \<in> set (data (sb_norm sb)). 0 < d)
       \<and> (\<forall>s1 s2 summed.
              (\<forall>w. w2 = Some w \<longrightarrow> vshape ext w = vshape ext w1)
            \<and> sb_cross_spectrum ext sb (fst (compute_rotdiv ext w1))
                (map_option (\<lambda>w. fst (compute_rotdiv ext w)) w2) True = Inr s1
            \<and> sb_cross_spectrum ext sb (snd (compute_rotdiv ext w1))
                (map_option (\<lambda>w. snd (compute_rotdiv ext w)) w2) True = Inr s2
            \<and> inplace (+) s1 s2 = Inr summed
            \<and> shape summed = [sb_truncation sb0 + 1, sb_samples sb0, sb_nlevels sb0]
            \<longrightarrow> sb_vector_spectra ext sb w1 w2
                  = Inr \<lparr>shape = [sb_truncation sb0 + 1, sb_samples sb0, sb_nlevels sb0],
                         data = map (\<lambda>k. data summed ! k
                                      / max epsilon (real (k div sl) * (real (k div sl) + 1)
                                                     / R ^ 2))
                                  [0..<(sb_truncation sb0 + 1) * sl]\<rparr>)"
proof -
  define T where "T = truncation self"
  define sq where "sq = map (\<lambda>k. k ^ 2) (kappa_from_deg R [0..<T + 1])"
  have vn: "vector_norm self = \<lparr>shape = [T + 1, 1, 1], data = sq[0 := 1]\<rparr>"
    using init_engine_vector_norm [OF eng] by (simp add: T_def sq_def)
  have lsq: "length sq = T + 1" by (simp add: sq_def kappa_from_deg_def)
  have sqn: "sq ! n = real n * (real n + 1) / R ^ 2" if "n \<le> T" for n
    using that kappa_squared [of n "[0..<T + 1]" R] by (simp add: sq_def del: upt_Suc)
  have a1: "data (vector_norm self) ! 0 = 1" using lsq by (simp add: vn)
  have a2: "\<forall>n. 0 < n \<and> n \<le> truncation self
              \<longrightarrow> data (vector_norm self) ! n = real n * (real n + 1) / R ^ 2"
    using sqn by (simp add: vn T_def)
  have a3: "\<forall>d \<in> set (data (vector_norm self)). 0 < d"
  proof
    fix d assume "d \<in> set (data (vector_norm self))"
    then obtain n where n: "n < T + 1" and d: "d = sq[0 := 1] ! n"
      using lsq by (auto simp: vn in_set_conv_nth)
    show "0 < d"
    proof (cases n)
      case 0
      then show ?thesis using d lsq by simp
    next
      case (Suc m)
      then have "d = real n * (real n + 1) / R ^ 2" using d n sqn [of n] by simp
      moreover have "0 < real n * (real n + 1)" using Suc by simp
      ultimately show ?thesis using R by simp
    qed
  qed
  have a4: "\<forall>rot dv s a b.
              cross_spectrum self (fst (rotdiv v1)) (map_option fst (map_option rotdiv v2))
                None ''power'' = Inr rot
            \<and> cross_spectrum self (snd (rotdiv v1)) (map_option snd (map_option rotdiv v2))
                None ''power'' = Inr dv
            \<and> elementwise (+) rot dv = Inr s
            \<and> shape s = [truncation self + 1, a, b]
            \<longrightarrow> vector_spectra rotdiv self v1 v2
                  = Inr \<lparr>shape = [truncation self + 1, a, b],
                         data = map (\<lambda>k. data s ! k
                                      / (if k div (a * b) = 0 then 1
                                         else real (k div (a * b)) * (real (k div (a * b)) + 1)
                                              / R ^ 2))
                                  [0..<(truncation self + 1) * a * b]\<rparr>"
  proof (intro allI impI, elim conjE)
    fix rot dv s a b
    assume c1: "cross_spectrum self (fst (rotdiv v1)) (map_option fst (map_option rotdiv v2))
                  None ''power'' = Inr rot"
      and c2: "cross_spectrum self (snd (rotdiv v1)) (map_option snd (map_option rotdiv v2))
                  None ''power'' = Inr dv"
      and add: "elementwise (+) rot dv = Inr s"
      and sh: "shape s = [truncation self + 1, a, b]"
    have "vector_spectra rotdiv self v1 v2 = elementwise (/) s (vector_norm self)"
      by (simp add: vector_spectra_def Let_def c1 c2 add)
    also have "\<dots> = Inr \<lparr>shape = [T + 1, a, b],
        data = map (\<lambda>k. data s ! k / data (vector_norm self) ! (k div (a * b)))
                 [0..<(T + 1) * a * b]\<rparr>"
      by (rule elementwise_leading) (simp_all add: sh T_def vn)
    also have "map (\<lambda>k. data s ! k / data (vector_norm self) ! (k div (a * b)))
                 [0..<(T + 1) * a * b]
        = map (\<lambda>k. data s ! k / (if k div (a * b) = 0 then 1
                      else real (k div (a * b)) * (real (k div (a * b)) + 1) / R ^ 2))
            [0..<(T + 1) * a * b]"
    proof (intro map_cong refl)
      fix k assume "k \<in> set [0..<(T + 1) * a * b]"
      then have "k < (T + 1) * a * b" by simp
      then have "k < (T + 1) * (a * b)" by (simp only: mult.assoc)
      then have "k div (a * b) < T + 1" by (rule less_mult_imp_div_less)
      then have "sq[0 := 1] ! (k div (a * b))
          = (if k div (a * b) = 0 then 1
             else real (k div (a * b)) * (real (k div (a * b)) + 1) / R ^ 2)"
        using lsq sqn [of "k div (a * b)"] by (simp add: nth_list_update)
      then show "data s ! k / data (vector_norm self) ! (k div (a * b))
          = data s ! k / (if k div (a * b) = 0 then 1
                else real (k div (a * b)) * (real (k div (a * b)) + 1) / R ^ 2)"
        by (simp only: vn ndarray.simps)
    qed
    finally show "vector_spectra rotdiv self v1 v2
        = Inr \<lparr>shape = [truncation self + 1, a, b],
               data = map (\<lambda>k. data s ! k
                            / (if k div (a * b) = 0 then 1
                               else real (k div (a * b)) * (real (k div (a * b)) + 1) / R ^ 2))
                        [0..<(truncation self + 1) * a * b]\<rparr>"
      by (simp only: T_def)
  qed
  define U where "U = sb_truncation sb0"
  define sq' where "sq' = map (\<lambda>k. k ^ 2) (kappa_from_deg R [0..<U + 1])"
  have lsq': "length sq' = U + 1" by (simp add: sq'_def kappa_from_deg_def)
  have sqn': "sq' ! n = real n * (real n + 1) / R ^ 2" if "n \<le> U" for n
    using that kappa_squared [of n "[0..<U + 1]" R] by (simp add: sq'_def del: upt_Suc)
  have nrm: "sb_norm sb = \<lparr>shape = [U + 1, sb_samples sb0, sb_nlevels sb0],
                 data = map (max epsilon) (concat (map (\<lambda>x. replicate sl x) sq'))\<rparr>"
    by (simp add: sb init_norm_def Let_def nd_map_def broadcast_1dto_def U_def sq'_def sl
        del: upt_Suc)
  have "length (concat (map (\<lambda>x. replicate sl x) xs)) = length xs * sl" for xs :: "real list"
    by (induction xs) simp_all
  then have lc: "length (concat (map (\<lambda>x. replicate sl x) sq')) = (U + 1) * sl"
    using lsq' by simp
  have b1: "\<forall>n j. n \<le> sb_truncation sb0 \<and> j < sl
              \<longrightarrow> data (sb_norm sb) ! (n * sl + j) = max epsilon (real n * (real n + 1) / R ^ 2)"
  proof (intro allI impI)
    fix n j assume h: "n \<le> sb_truncation sb0 \<and> j < sl"
    then have "n * sl + j < (n + 1) * sl" by simp
    also have "\<dots> \<le> (U + 1) * sl" using h by (intro mult_le_mono1) (simp add: U_def)
    finally have "n * sl + j < length (concat (map (\<lambda>x. replicate sl x) sq'))" by (simp add: lc)
    then have "data (sb_norm sb) ! (n * sl + j)
        = max epsilon (concat (map (\<lambda>x. replicate sl x) sq') ! (n * sl + j))"
      by (simp add: nrm)
    also have "concat (map (\<lambda>x. replicate sl x) sq') ! (n * sl + j) = sq' ! n"
      using h lsq' by (intro concat_replicate_nth) (simp_all add: U_def)
    finally show "data (sb_norm sb) ! (n * sl + j) = max epsilon (real n * (real n + 1) / R ^ 2)"
      using h sqn' [of n] by (simp add: U_def)
  qed
  have b2: "\<forall>j < sl. data (sb_norm sb) ! j = epsilon"
  proof (intro allI impI)
    fix j assume "j < sl"
    with b1 have "data (sb_norm sb) ! (0 * sl + j) = max epsilon (real 0 * (real 0 + 1) / R ^ 2)"
      by blast
    then show "data (sb_norm sb) ! j = epsilon" using eps by simp
  qed
  have b3: "\<forall>d \<in> set (data (sb_norm sb)). 0 < d"
    using eps by (auto simp: nrm)
  have ln: "length (data (sb_norm sb)) = (U + 1) * sl" by (simp add: nrm lc)
  have wfn: "wf (sb_norm sb)"
  proof -
    have "prod_list (shape (sb_norm sb)) = (U + 1) * sl" by (simp add: nrm sl)
    with ln show ?thesis by (simp only: wf_def)
  qed
  have b4: "\<forall>s1 s2 summed.
              (\<forall>w. w2 = Some w \<longrightarrow> vshape ext w = vshape ext w1)
            \<and> sb_cross_spectrum ext sb (fst (compute_rotdiv ext w1))
                (map_option (\<lambda>w. fst (compute_rotdiv ext w)) w2) True = Inr s1
            \<and> sb_cross_spectrum ext sb (snd (compute_rotdiv ext w1))
                (map_option (\<lambda>w. snd (compute_rotdiv ext w)) w2) True = Inr s2
            \<and> inplace (+) s1 s2 = Inr summed
            \<and> shape summed = [sb_truncation sb0 + 1, sb_samples sb0, sb_nlevels sb0]
            \<longrightarrow> sb_vector_spectra ext sb w1 w2
                  = Inr \<lparr>shape = [sb_truncation sb0 + 1, sb_samples sb0, sb_nlevels sb0],
                         data = map (\<lambda>k. data summed ! k
                                      / max epsilon (real (k div sl) * (real (k div sl) + 1)
                                                     / R ^ 2))
                                  [0..<(sb_truncation sb0 + 1) * sl]\<rparr>"
  proof (intro allI impI, elim conjE)
    fix s1 s2 summed
    assume vs: "\<forall>w. w2 = Some w \<longrightarrow> vshape ext w = vshape ext w1"
      and c1: "sb_cross_spectrum ext sb (fst (compute_rotdiv ext w1))
                (map_option (\<lambda>w. fst (compute_rotdiv ext w)) w2) True = Inr s1"
      and c2: "sb_cross_spectrum ext sb (snd (compute_rotdiv ext w1))
                (map_option (\<lambda>w. snd (compute_rotdiv ext w)) w2) True = Inr s2"
      and add: "inplace (+) s1 s2 = Inr summed"
      and sh: "shape summed = [sb_truncation sb0 + 1, sb_samples sb0, sb_nlevels sb0]"
    have "sb_vector_spectra ext sb w1 w2 = elementwise (/) summed (sb_norm sb)"
      using vs c1 c2 add by (cases w2) (simp_all add: sb_vector_spectra_def)
    also have "\<dots> = Inr \<lparr>shape = shape summed, data = map2 (/) (data summed) (data (sb_norm sb))\<rparr>"
      using wfn inplace_wf [OF add] by (intro elementwise_same_shape) (simp_all add: sh nrm U_def)
    also have "map2 (/) (data summed) (data (sb_norm sb))
        = map (\<lambda>k. data summed ! k / data (sb_norm sb) ! k) [0..<(U + 1) * sl]"
      using inplace_wf [OF add] ln
      by (intro map2_as_map) (simp_all add: wf_def sh U_def sl)
    also have "\<dots> = map (\<lambda>k. data summed ! k
                      / max epsilon (real (k div sl) * (real (k div sl) + 1) / R ^ 2))
                  [0..<(U + 1) * sl]"
    proof (intro map_cong refl)
      fix k assume "k \<in> set [0..<(U + 1) * sl]"
      then have k: "k < (U + 1) * sl" by simp
      then have n: "k div sl < U + 1" by (rule less_mult_imp_div_less)
      from k have "0 < sl" by (cases "sl = 0") simp_all
      then have j: "k mod sl < sl" by simp
      have "data (sb_norm sb) ! k
          = max epsilon (real (k div sl) * (real (k div sl) + 1) / R ^ 2)"
        using b1 [rule_format, of "k div sl" "k mod sl"] n j by (simp add: U_def)
      then show "data summed ! k / data (sb_norm sb) ! k
          = data summed ! k / max epsilon (real (k div sl) * (real (k div sl) + 1) / R ^ 2)"
        by simp
    qed
    finally show "sb_vector_spectra ext sb w1 w2
        = Inr \<lparr>shape = [sb_truncation sb0 + 1, sb_samples sb0, sb_nlevels sb0],
               data = map (\<lambda>k. data summed ! k
                            / max epsilon (real (k div sl) * (real (k div sl) + 1) / R ^ 2))
                        [0..<(sb_truncation sb0 + 1) * sl]\<rparr>"
      by (simp only: sh U_def)
  qed
  from a1 a2 a3 a4 b1 b2 b3 b4 show ?thesis by (intro conjI)
qed

text \<open>
  The two engines on small inputs: three coefficients on a \<open>2 \<times> 2\<close> block of samples
  and levels for the array-based engine, two degrees on a single sample and level for
  the dataset-based one.
\<close>

lemma example_engine_cross_spectrum:
  assumes self: "init_engine 1 example_info [1000, 850, 500, 250] (Some 1) = Inr self"
  shows "cross_spectrum self \<lparr>shape = [3, 2, 2], data = [1, 2, 3, 4, 1, 1, 1, 1, 1, 1, 1, 1]\<rparr>
           None None ''power''
         = Inr \<lparr>shape = [2, 2, 2], data = [1 / 2, 2, 9 / 2, 8, 3 / 2, 3 / 2, 3 / 2, 3 / 2]\<rparr>"
proof -
  note inv = init_engine_index_set [OF self]
  have t: "truncation self = 1"
    using self by (auto simp: init_engine_def example_info_def Let_def init_info.defs)
  have ml: "zonal_wavenumber self = [0, 0, 1]" "total_wavenumber self = [0, 1, 1]"
    using inv(1) unfolding t getspecindx_1 by simp_all
  have dg: "degrees self = [0, 1]" using inv(2) by (simp add: t upt_conv_Cons)
  have r4: "replicate 4 (0::real) = [0, 0, 0, 0]" by (simp add: eval_nat_numeral)
  show ?thesis
    by (simp add: cross_spectrum_def Let_def ml dg rows_def sum_rows_def squeeze_def
        lower_def lower_char_def upt_conv_Cons r4)
qed

lemma example_sb_cross_spectrum:
  "sb_cross_spectrum example_collaborators
     (init_norm epsilon R (example_seba\<lparr>sb_truncation := Suc 0\<rparr>))
     \<lparr>shape = [Suc 0, Suc 0, Suc 0], data = [x]\<rparr>
     (Some \<lparr>shape = [Suc 0, Suc 0, Suc 0], data = [y]\<rparr>) True
   = Inr \<lparr>shape = [2, Suc 0, Suc 0], data = [Re (x * cnj y), Re (x * cnj y)]\<rparr>"
proof -
  have d: "elementwise (/) \<lparr>shape = [Suc (Suc 0), Suc 0, Suc 0], data = [r, r]\<rparr>
             \<lparr>shape = [Suc 0, Suc 0], data = [1::real]\<rparr>
           = Inr \<lparr>shape = [Suc (Suc 0), Suc 0, Suc 0], data = [r, r]\<rparr>" for r :: real
    using elementwise_suffix [of "\<lparr>shape = [Suc (Suc 0), Suc 0, Suc 0], data = [r, r]\<rparr>"
        "[Suc (Suc 0)]" "\<lparr>shape = [Suc 0, Suc 0], data = [1::real]\<rparr>" "(/)"]
    by (simp add: upt_conv_Cons)
  show ?thesis
    by (simp add: sb_cross_spectrum_def accumulate_order_def example_collaborators_def
        example_seba_def init_norm_def nd_map_def Let_def d eval_nat_numeral)
qed

theorem vector_spectra_divide_by_own_degree_witness:
  "\<exists>self. init_engine 1 example_info [1000, 850, 500, 250] (Some 1) = Inr self
     \<and> data (vector_norm self) ! 0 = 1
     \<and> data (vector_norm self) ! 1 = 2
     \<and> vector_spectra (\<lambda>v. (v, v)) self
          \<lparr>shape = [3, 2, 2], data = [1, 2, 3, 4, 1, 1, 1, 1, 1, 1, 1, 1]\<rparr> None
        = Inr \<lparr>shape = [2, 2, 2], data = [1, 4, 9, 16, 3 / 2, 3 / 2, 3 / 2, 3 / 2]\<rparr>
     \<and> data (sb_norm (init_norm (1 / 10 ^ 12) 1 (example_seba\<lparr>sb_truncation := 1\<rparr>))) ! 0
        = 1 / 10 ^ 12
     \<and> data (sb_norm (init_norm (1 / 10 ^ 12) 1 (example_seba\<lparr>sb_truncation := 1\<rparr>))) ! 1 = 2
     \<and> sb_vector_spectra example_collaborators
          (init_norm (1 / 10 ^ 12) 1 (example_seba\<lparr>sb_truncation := 1\<rparr>)) 3 (Some 2)
        = Inr \<lparr>shape = [2, 1, 1], data = [6 / (1 / 10 ^ 12), 3]\<rparr>"
proof -
  define clm :: "complex ndarray"
    where "clm = \<lparr>shape = [3, 2, 2], data = [1, 2, 3, 4, 1, 1, 1, 1, 1, 1, 1, 1]\<rparr>"
  define sb0 :: "(real, real) seba_budget" where "sb0 = example_seba\<lparr>sb_truncation := 1\<rparr>"
  define sb where "sb = init_norm (1 / 10 ^ 12) 1 sb0"
  obtain self where self: "init_engine 1 example_info [1000, 850, 500, 250] (Some 1) = Inr self"
    by (simp add: init_engine_def example_info_def Let_def)
  have t: "truncation self = 1"
    using self by (auto simp: init_engine_def example_info_def Let_def init_info.defs)
  have R: "(1::real) \<noteq> 0" and eps: "(0::real) < 1 / 10 ^ 12" by simp_all
  have sl: "(1::nat) = sb_samples sb0 * sb_nlevels sb0"
    by (simp add: sb0_def example_seba_def)
  have u: "sb_truncation sb0 = 1" "sb_samples sb0 = 1" "sb_nlevels sb0 = 1"
    by (simp_all add: sb0_def example_seba_def)
  note th = vector_spectra_divide_by_own_degree
    [OF self sb_def R eps sl, where rotdiv = "\<lambda>v. (v, v)" and ?v1.0 = clm and ?v2.0 = None
      and ext = example_collaborators and ?w1.0 = 3 and ?w2.0 = "Some 2"]
  have a1: "data (vector_norm self) ! 0 = 1"
    by (rule th [THEN conjunct1])
  have a2: "\<forall>n. 0 < n \<and> n \<le> truncation self
              \<longrightarrow> data (vector_norm self) ! n = real n * (real n + 1) / 1 ^ 2"
    by (rule th [THEN conjunct2, THEN conjunct1])
  have "data (vector_norm self) ! 1 = real 1 * (real 1 + 1) / 1 ^ 2"
    using t by (intro a2 [rule_format]) simp
  then have a2': "data (vector_norm self) ! 1 = 2" by simp
  note a4 = th [THEN conjunct2, THEN conjunct2, THEN conjunct2, THEN conjunct1, rule_format]
  note rest = th [THEN conjunct2, THEN conjunct2, THEN conjunct2, THEN conjunct2]
  note b1 = rest [THEN conjunct1, rule_format]
  note b2 = rest [THEN conjunct2, THEN conjunct1, rule_format]
  note b4 = rest [THEN conjunct2, THEN conjunct2, THEN conjunct2, rule_format]
  have cs: "cross_spectrum self clm None None ''power''
      = Inr \<lparr>shape = [2, 2, 2], data = [1 / 2, 2, 9 / 2, 8, 3 / 2, 3 / 2, 3 / 2, 3 / 2]\<rparr>"
    unfolding clm_def by (rule example_engine_cross_spectrum [OF self])
  have add: "elementwise (+)
        \<lparr>shape = [2, 2, 2], data = [1 / 2, 2, 9 / 2, 8, 3 / 2, 3 / 2, 3 / 2, 3 / 2]\<rparr>
        \<lparr>shape = [2, 2, 2], data = [1 / 2, 2, 9 / 2, 8, 3 / 2, 3 / 2, 3 / 2, 3 / 2]\<rparr>
      = Inr \<lparr>shape = [2, 2, 2], data = [1, 4, 9, 16, 3, 3, 3, 3 :: real]\<rparr>"
    by (simp add: elementwise_same_shape wf_def)
  have a4': "vector_spectra (\<lambda>v. (v, v)) self clm None
      = Inr \<lparr>shape = [2, 2, 2], data = [1, 4, 9, 16, 3 / 2, 3 / 2, 3 / 2, 3 / 2]\<rparr>"
    using a4 [of "\<lparr>shape = [2, 2, 2], data = [1 / 2, 2, 9 / 2, 8, 3 / 2, 3 / 2, 3 / 2, 3 / 2]\<rparr>"
        "\<lparr>shape = [2, 2, 2], data = [1 / 2, 2, 9 / 2, 8, 3 / 2, 3 / 2, 3 / 2, 3 / 2]\<rparr>"
        "\<lparr>shape = [2, 2, 2], data = [1, 4, 9, 16, 3, 3, 3, 3]\<rparr>" 2 2] cs add
    by (simp add: t upt_conv_Cons)
  have n0: "data (sb_norm sb) ! 0 = 1 / 10 ^ 12"
    using b2 [of 0] by simp
  have n1: "data (sb_norm sb) ! 1 = 2"
    using b1 [of 1 0] u by simp
  have rd: "compute_rotdiv example_collaborators v
      = (\<lparr>shape = [Suc 0, Suc 0, Suc 0], data = [complex_of_real v]\<rparr>,
         \<lparr>shape = [Suc 0, Suc 0, Suc 0], data = [0]\<rparr>)" for v
    by (simp add: example_collaborators_def)
  have vs: "vshape example_collaborators b = vshape example_collaborators a" for a b
    by (simp add: example_collaborators_def)
  have s1: "sb_cross_spectrum example_collaborators sb (fst (compute_rotdiv example_collaborators 3))
        (map_option (\<lambda>w. fst (compute_rotdiv example_collaborators w)) (Some 2)) True
      = Inr \<lparr>shape = [2, Suc 0, Suc 0], data = [6, 6]\<rparr>"
    unfolding sb_def sb0_def by (simp add: rd example_sb_cross_spectrum)
  have s2: "sb_cross_spectrum example_collaborators sb (snd (compute_rotdiv example_collaborators 3))
        (map_option (\<lambda>w. snd (compute_rotdiv example_collaborators w)) (Some 2)) True
      = Inr \<lparr>shape = [2, Suc 0, Suc 0], data = [0, 0]\<rparr>"
    unfolding sb_def sb0_def by (simp add: rd example_sb_cross_spectrum)
  have sm: "inplace (+) \<lparr>shape = [2, Suc 0, Suc 0], data = [6, 6]\<rparr>
        \<lparr>shape = [2, Suc 0, Suc 0], data = [0, 0]\<rparr>
      = Inr \<lparr>shape = [2, Suc 0, Suc 0], data = [6, 6 :: real]\<rparr>"
    by (simp add: inplace_def elementwise_same_shape wf_def)
  have b4': "sb_vector_spectra example_collaborators sb 3 (Some 2)
      = Inr \<lparr>shape = [2, 1, 1], data = [6 / (1 / 10 ^ 12), 3]\<rparr>"
    using b4 [of "\<lparr>shape = [2, Suc 0, Suc 0], data = [6, 6]\<rparr>"
        "\<lparr>shape = [2, Suc 0, Suc 0], data = [0, 0]\<rparr>"
        "\<lparr>shape = [2, Suc 0, Suc 0], data = [6, 6]\<rparr>"] s1 s2 sm vs
    by (simp add: u upt_conv_Cons)
  from self a1 a2' a4' n0 n1 b4' show ?thesis
    unfolding sb_def sb0_def clm_def by (intro exI [of _ self] conjI)
qed

lemma sb_norm_two_degrees:
  "data (sb_norm (init_norm epsilon R (example_seba\<lparr>sb_truncation := Suc 0\<rparr>)))
     = [max epsilon 0, max epsilon (2 / R ^ 2)]"
  by (simp add: init_norm_def example_seba_def Let_def nd_map_def broadcast_1dto_def
      kappa_from_deg_def upt_conv_Cons power_divide)

text \<open>
  The constant \<open>cn.epsilon\<close> is not among the sources. Whatever its value, with the
  earth radius in metres the normalisation of the dataset-based engine is not
  \<open>n(n+1)/r\<^sup>2\<close> with the degree-0 entry replaced by 1: either the degree-0 entry is
  not 1, or the entry of degree 1 is not \<open>2/r\<^sup>2\<close>.
\<close>

lemma sb_norm_differs_for_every_epsilon:
  "data (sb_norm (init_norm epsilon 6371200 (example_seba\<lparr>sb_truncation := 1\<rparr>))) ! 0 \<noteq> 1
   \<or> data (sb_norm (init_norm epsilon 6371200 (example_seba\<lparr>sb_truncation := 1\<rparr>))) ! 1
       \<noteq> 2 / 6371200 ^ 2"
proof (cases "epsilon = 1")
  case True
  then show ?thesis by (simp add: sb_norm_two_degrees)
next
  case False
  then show ?thesis by (simp add: sb_norm_two_degrees max_def)
qed

text \<open>
  C3 (as the specification words it) fails on the dataset-based engine, whose
  normalisation is clipped and not replaced at degree 0. With \<open>cn.epsilon\<close> at
  \<open>10\<^sup>-\<^sup>1\<^sup>2\<close> the degree-0 entry is that value and not 1; and were \<open>cn.epsilon\<close>
  equal to 1, the entry of degree 1 would be 1 and not \<open>2/r\<^sup>2\<close>.
\<close>

theorem sb_norm_is_clipped_not_replaced:
  "data (sb_norm (init_norm (1 / 10 ^ 12) 6371200 (example_seba\<lparr>sb_truncation := 1\<rparr>))) ! 0
     = 1 / 10 ^ 12
   \<and> data (sb_norm (init_norm (1 / 10 ^ 12) 6371200 (example_seba\<lparr>sb_truncation := 1\<rparr>))) ! 0
     \<noteq> 1
   \<and> data (sb_norm (init_norm 1 6371200 (example_seba\<lparr>sb_truncation := 1\<rparr>))) ! 0 = 1
   \<and> data (sb_norm (init_norm 1 6371200 (example_seba\<lparr>sb_truncation := 1\<rparr>))) ! 1 = 1
   \<and> data (sb_norm (init_norm 1 6371200 (example_seba\<lparr>sb_truncation := 1\<rparr>))) ! 1
     \<noteq> 2 / 6371200 ^ 2"
  by (simp add: sb_norm_two_degrees)

section \<open>Properties of the dimension packing\<close>

subsection \<open>Transposing back\<close>

text \<open>
  Two axis orders that are inverse permutations of each other undo each other's
  transposition.
\<close>

lemma index_of_nth: "distinct xs \<Longrightarrow> i < length xs \<Longrightarrow> index_of xs (xs ! i) = i"
proof -
  assume d: "distinct xs" and i: "i < length xs"
  have "takeWhile (\<lambda>a. a \<noteq> xs ! i) xs = take i xs"
  proof (rule takeWhile_eq_take_P_nth)
    show "\<And>j. j < i \<Longrightarrow> j < length xs \<Longrightarrow> xs ! j \<noteq> xs ! i"
      using d i by (simp add: nth_eq_iff_index_eq)
    show "i < length xs \<Longrightarrow> \<not> xs ! i \<noteq> xs ! i" by simp
  qed
  then show ?thesis using i by (simp add: index_of_def)
qed

lemma nth_inverse_distinct:
  assumes "length p = n" and "\<forall>k<n. p ! k < n" and "\<forall>k<n. q ! (p ! k) = k"
  shows "distinct p"
proof (rule ccontr)
  assume "\<not> distinct p"
  then obtain i j where ij: "i < length p" "j < length p" "i \<noteq> j" "p ! i = p ! j"
    by (auto simp: distinct_conv_nth)
  have "q ! (p ! i) = i" "q ! (p ! j) = j" using assms ij(1,2) by simp_all
  with ij show False by metis
qed

lemma nth_inverse_other:
  assumes "length p = n" and "\<forall>k<n. p ! k < n" and "\<forall>k<n. q ! (p ! k) = k"
  shows "\<forall>k<n. p ! (q ! k) = k"
proof (intro allI impI)
  fix k assume k: "k < n"
  have inj: "inj_on (\<lambda>i. p ! i) {..<n}"
    using assms(3) by (intro inj_on_inverseI [where g = "\<lambda>a. q ! a"]) simp
  have "(\<lambda>i. p ! i) ` {..<n} \<subseteq> {..<n}" using assms(2) by auto
  with inj have "(\<lambda>i. p ! i) ` {..<n} = {..<n}"
    by (intro endo_inj_surj) simp_all
  with k have "k \<in> (\<lambda>i. p ! i) ` {..<n}" by simp
  then obtain j where j: "j < n" "p ! j = k" by auto
  then have "q ! k = j" using assms(3) by auto
  with j show "p ! (q ! k) = k" by simp
qed

lemma transpose_axes_inverse:
  assumes wf: "wf a" and lp: "length p = ndim a" and lq: "length q = ndim a"
    and bp: "\<forall>k < ndim a. p ! k < ndim a" and bq: "\<forall>k < ndim a. q ! k < ndim a"
    and inv: "\<forall>k < ndim a. q ! (p ! k) = k"
  shows "transpose_axes (transpose_axes a p) q = a"
proof -
  define n where "n = ndim a"
  define s where "s = shape a"
  define s' where "s' = map (\<lambda>ax. s ! ax) p"
  have ls: "length s = n" by (simp add: s_def n_def ndim_def)
  have la: "length (data a) = prod_list s" using wf by (simp add: wf_def s_def)
  have inv': "\<forall>k<n. p ! (q ! k) = k"
    using nth_inverse_other [of p n q] lp bp inv by (simp add: n_def)
  have dp: "distinct p" using nth_inverse_distinct [of p n q] lp bp inv by (simp add: n_def)
  have dq: "distinct q" using nth_inverse_distinct [of q n p] lq bq inv' by (simp add: n_def)
  have iq: "index_of q ax = p ! ax" if "ax < n" for ax
    using index_of_nth [OF dq, of "p ! ax"] that bp inv lq by (simp add: n_def)
  have ip: "index_of p k = q ! k" if "k < n" for k
    using index_of_nth [OF dp, of "q ! k"] that bq inv' lp by (simp add: n_def)
  have srcq: "source_index q idx = map (\<lambda>ax. idx ! (p ! ax)) [0..<n]" for idx :: "nat list"
    using lq by (simp add: source_index_def n_def [symmetric] iq cong: map_cong)
  have srcp: "source_index p idx = map (\<lambda>k. idx ! (q ! k)) [0..<n]" for idx :: "nat list"
    using lp by (simp add: source_index_def n_def [symmetric] ip cong: map_cong)
  have s'': "map (\<lambda>ax. s' ! ax) q = s"
    using lq lp ls bq inv' by (intro nth_equalityI) (simp_all add: s'_def n_def)
  have t1: "transpose_axes a p = \<lparr>shape = s',
      data = map (\<lambda>k. data a ! ravel s (source_index p (unravel s' k))) [0..<prod_list s']\<rparr>"
    by (simp add: transpose_axes_def Let_def s_def s'_def)
  have dat: "data a ! ravel s (source_index p (unravel s' (ravel s' (source_index q (unravel s k)))))
             = data a ! k" if k: "k < prod_list s" for k
  proof -
    define idx where "idx = unravel s k"
    have v: "list_all2 (<) idx s" unfolding idx_def using k by (rule unravel_valid)
    then have li: "length idx = n" using ls by (simp add: list_all2_lengthD)
    define x where "x = source_index q idx"
    have vx: "list_all2 (<) x s'"
      using v lp ls li bp
      by (auto simp: x_def srcq s'_def list_all2_conv_all_nth n_def)
    have "source_index p (unravel s' (ravel s' x)) = source_index p x"
      using unravel_ravel [OF vx] by simp
    also have "\<dots> = map (\<lambda>k. idx ! (p ! (q ! k))) [0..<n]"
      using bq lq by (simp add: srcp x_def srcq n_def cong: map_cong)
    also have "\<dots> = idx"
      using li inv' by (intro nth_equalityI) simp_all
    finally have "ravel s (source_index p (unravel s' (ravel s' x))) = k"
      using ravel_unravel [OF k] by (simp add: idx_def)
    then show ?thesis by (simp add: x_def idx_def)
  qed
  have lt: "ravel s' (source_index q (unravel s k)) < prod_list s'" if k: "k < prod_list s" for k
  proof -
    define idx where "idx = unravel s k"
    have v: "list_all2 (<) idx s" unfolding idx_def using k by (rule unravel_valid)
    then have li: "length idx = n" using ls by (simp add: list_all2_lengthD)
    have "list_all2 (<) (source_index q idx) s'"
      using v lp ls li bp
      by (auto simp: srcq s'_def list_all2_conv_all_nth n_def)
    then show ?thesis unfolding idx_def by (rule ravel_less)
  qed
  have t2: "transpose_axes b q = \<lparr>shape = map (\<lambda>ax. shape b ! ax) q,
      data = map (\<lambda>k. data b ! ravel (shape b)
                 (source_index q (unravel (map (\<lambda>ax. shape b ! ax) q) k)))
               [0..<prod_list (map (\<lambda>ax. shape b ! ax) q)]\<rparr>" for b :: "'a ndarray"
    by (simp add: transpose_axes_def Let_def)
  have sh1: "shape (transpose_axes a p) = s'" by (simp add: t1)
  have "transpose_axes (transpose_axes a p) q
      = \<lparr>shape = s, data = map (\<lambda>k. data (transpose_axes a p) !
            ravel s' (source_index q (unravel s k))) [0..<prod_list s]\<rparr>"
    unfolding t2 [of "transpose_axes a p"] sh1 s'' by (rule refl)
  also have "map (\<lambda>k. data (transpose_axes a p) ! ravel s' (source_index q (unravel s k)))
               [0..<prod_list s] = data a"
    using la by (intro nth_equalityI) (simp_all add: t1 lt dat)
  finally show ?thesis by (simp add: s_def)
qed

subsection \<open>The axis order of a move of three axes\<close>

text \<open>
  \<^verbatim>\<open>prepare_data\<close> and \<^verbatim>\<open>recover_data\<close> move three axes. After the three insertions
  every source sits at its destination and the remaining axes keep their order on the
  remaining positions; moving the destinations back to the sources gives the inverse
  permutation.
\<close>

lemma length_list_insert: "length (list_insert i x xs) = Suc (length xs)"
  by (simp add: list_insert_def)

lemma list_insert_nth:
  "i \<le> length xs \<Longrightarrow>
   list_insert i x xs ! k = (if k < i then xs ! k else if k = i then x else xs ! (k - 1))"
  by (auto simp: list_insert_def nth_append nth_Cons' min_def)

lemma count_below_three:
  assumes "d1 < d2" "d2 < d3"
  shows "length (filter (\<lambda>a. a \<notin> {d1, d2, d3}) [0..<k])
         + (if d1 < k then 1 else 0) + (if d2 < k then 1 else 0) + (if d3 < k then 1 else 0) = k"
  by (induction k) (use assms in \<open>auto simp: less_Suc_eq\<close>)

lemma three_inserts_nth:
  fixes sa sb sc :: 'a and base :: "'a list" and R :: "'a list"
  assumes "da < db" "db < dc" "dc < length base + 3"
  defines "R \<equiv> list_insert dc sc (list_insert db sb (list_insert da sa base))"
  shows "length R = length base + 3" and "R ! da = sa" and "R ! db = sb" and "R ! dc = sc"
    and "k \<notin> {da, db, dc} \<Longrightarrow>
         R ! k = base ! length (filter (\<lambda>a. a \<notin> {da, db, dc}) [0..<k])"
proof -
  show "length R = length base + 3" by (simp add: R_def length_list_insert)
  have b1: "da \<le> length base" using assms(1-3) by simp
  have b2: "db \<le> length (list_insert da sa base)"
    using assms(1-3) by (simp add: length_list_insert)
  have b3: "dc \<le> length (list_insert db sb (list_insert da sa base))"
    using assms(1-3) by (simp add: length_list_insert)
  show "R ! da = sa" using assms(1,2)
    by (simp add: R_def list_insert_nth [OF b3] list_insert_nth [OF b2] list_insert_nth [OF b1])
  show "R ! db = sb" using assms(1,2)
    by (simp add: R_def list_insert_nth [OF b3] list_insert_nth [OF b2] list_insert_nth [OF b1])
  show "R ! dc = sc" using assms(1,2)
    by (simp add: R_def list_insert_nth [OF b3] list_insert_nth [OF b2] list_insert_nth [OF b1])
  assume k: "k \<notin> {da, db, dc}"
  define m where "m = length (filter (\<lambda>a. a \<notin> {da, db, dc}) [0..<k])"
  have c: "m + (if da < k then 1 else 0) + (if db < k then 1 else 0) + (if dc < k then 1 else 0) = k"
    unfolding m_def by (rule count_below_three [OF assms(1,2)])
  have "R ! k = base ! m"
    using assms(1,2) k c
    by (auto simp: R_def list_insert_nth [OF b3] list_insert_nth [OF b2] list_insert_nth [OF b1]
        split: if_splits)
  then show "R ! k = base ! length (filter (\<lambda>a. a \<notin> {da, db, dc}) [0..<k])"
    by (simp add: m_def)
qed

lemma filter_upt_index:
  assumes "P r" "r < n"
  shows "filter P [0..<n] ! length (filter P [0..<r]) = r"
    and "length (filter P [0..<r]) < length (filter P [0..<n])"
proof -
  have "[0..<n] = [0..<r] @ r # [Suc r..<n]"
    using assms(2) by (metis less_imp_le_nat upt_add_eq_append upt_conv_Cons le0 add.commute le_add_diff_inverse)
  then have f: "filter P [0..<n] = filter P [0..<r] @ r # filter P [Suc r..<n]"
    using assms(1) by simp
  show "filter P [0..<n] ! length (filter P [0..<r]) = r" unfolding f by simp
  show "length (filter P [0..<r]) < length (filter P [0..<n])" unfolding f by simp
qed

lemma filter_upt_count:
  assumes "j < length (filter P [0..<n])"
  shows "length (filter P [0..<(filter P [0..<n] ! j)]) = j"
proof -
  define r where "r = filter P [0..<n] ! j"
  have "r \<in> set (filter P [0..<n])" unfolding r_def using assms by (rule nth_mem)
  then have r: "P r" "r < n" by simp_all
  have d: "distinct (filter P [0..<n])" by simp
  have "filter P [0..<n] ! length (filter P [0..<r]) = filter P [0..<n] ! j"
    using filter_upt_index(1) [of P r n] r by (simp add: r_def)
  then show ?thesis
    using d filter_upt_index(2) [of P r n] r assms by (simp add: nth_eq_iff_index_eq r_def)
qed

lemma sorted_three:
  assumes "length ps = 3" and "distinct (map fst ps)"
  shows "\<exists>d1 s1 d2 s2 d3 s3. sort_key fst ps = [(d1, s1), (d2, s2), (d3, s3)]
           \<and> d1 < d2 \<and> d2 < d3 \<and> set ps = {(d1, s1), (d2, s2), (d3, s3)}"
proof -
  have "length (sort_key fst ps) = 3" using assms(1) by simp
  then obtain x y z where xyz: "sort_key fst ps = [x, y, z]"
    by (metis (no_types, opaque_lifting) length_0_conv length_Suc_conv numeral_3_eq_3)
  have s: "sorted (map fst [x, y, z])" using sorted_sort_key [of fst ps] by (simp add: xyz)
  have st: "set ps = {x, y, z}" using set_sort [of fst ps] by (simp add: xyz)
  have "distinct (map fst (sort_key fst ps))"
    using assms(2) by (metis distinct_map distinct_sort set_sort)
  then have d: "distinct (map fst [x, y, z])" by (simp add: xyz)
  show ?thesis
    using s d st xyz by (cases x; cases y; cases z) (auto simp: less_le)
qed

lemma length_filter_complement:
  assumes "distinct A" and "\<forall>a \<in> set A. a < n"
  shows "length (filter (\<lambda>a. a \<notin> set A) [0..<n]) + length A = n"
proof -
  have "length (filter (\<lambda>a. a \<notin> set A) [0..<n]) = card ({a. a \<notin> set A} \<inter> set [0..<n])"
    by (rule distinct_length_filter) simp
  also have "{a. a \<notin> set A} \<inter> set [0..<n] = {0..<n} - set A" by auto
  also have "card ({0..<n} - set A) = card {0..<n} - card (set A)"
    using assms(2) by (intro card_Diff_subset) auto
  finally have "length (filter (\<lambda>a. a \<notin> set A) [0..<n]) = n - length A"
    using assms(1) by (simp add: distinct_card)
  moreover have "card (set A) \<le> card {0..<n}"
    using assms(2) by (intro card_mono) auto
  then have "length A \<le> n" using assms(1) by (simp add: distinct_card)
  ultimately show ?thesis by simp
qed

lemma moveaxis_order_three:
  fixes A D :: "nat list"
  assumes lA: "length A = 3" and lD: "length D = 3" and dA: "distinct A" and dD: "distinct D"
    and bA: "\<forall>a \<in> set A. a < n" and bD: "\<forall>d \<in> set D. d < n"
  shows "length (moveaxis_order n A D) = n"
    and "\<forall>i<3. moveaxis_order n A D ! (D ! i) = A ! i"
    and "\<forall>k. k \<notin> set D \<longrightarrow> moveaxis_order n A D ! k
           = filter (\<lambda>a. a \<notin> set A) [0..<n] ! length (filter (\<lambda>a. a \<notin> set D) [0..<k])"
proof -
  define base where "base = filter (\<lambda>a. a \<notin> set A) [0..<n]"
  have lb: "length base + 3 = n"
    using length_filter_complement [OF dA bA] by (simp add: base_def lA)
  have "length (zip D A) = 3" using lA lD by simp
  moreover have mf: "map fst (zip D A) = D" using lA lD by simp
  then have "distinct (map fst (zip D A))" using dD by simp
  ultimately obtain d1 s1 d2 s2 d3 s3
    where srt: "sort_key fst (zip D A) = [(d1, s1), (d2, s2), (d3, s3)]"
      and lt: "d1 < d2" "d2 < d3" and st: "set (zip D A) = {(d1, s1), (d2, s2), (d3, s3)}"
    using sorted_three [of "zip D A"] by blast
  have "set D = fst ` set (zip D A)" using mf by (metis set_map)
  then have sD: "set D = {d1, d2, d3}" by (simp add: st)
  then have "d3 < n" using bD by simp
  then have b3: "d3 < length base + 3" using lb by simp
  have R: "moveaxis_order n A D = list_insert d3 s3 (list_insert d2 s2 (list_insert d1 s1 base))"
    by (simp add: moveaxis_order_def srt base_def)
  note three = three_inserts_nth [OF lt b3, where sa = s1 and sb = s2 and sc = s3, folded R]
  show "length (moveaxis_order n A D) = n" using three(1) lb by simp
  show "\<forall>i<3. moveaxis_order n A D ! (D ! i) = A ! i"
  proof (intro allI impI)
    fix i :: nat assume i: "i < 3"
    then have "(D ! i, A ! i) \<in> set (zip D A)"
      using lA lD by (auto simp: set_zip)
    then have "(D ! i, A ! i) \<in> {(d1, s1), (d2, s2), (d3, s3)}" by (simp only: st)
    then show "moveaxis_order n A D ! (D ! i) = A ! i"
      using three(2,3,4) by auto
  qed
  show "\<forall>k. k \<notin> set D \<longrightarrow> moveaxis_order n A D ! k
           = filter (\<lambda>a. a \<notin> set A) [0..<n] ! length (filter (\<lambda>a. a \<notin> set D) [0..<k])"
    using three(5) unfolding sD base_def by blast
qed

lemma moveaxis_order_inverse:
  fixes A D :: "nat list"
  assumes lA: "length A = 3" and lD: "length D = 3" and dA: "distinct A" and dD: "distinct D"
    and bA: "\<forall>a \<in> set A. a < n" and bD: "\<forall>d \<in> set D. d < n"
  shows "\<forall>r<n. moveaxis_order n A D ! (moveaxis_order n D A ! r) = r"
    and "\<forall>r<n. moveaxis_order n D A ! r < n"
proof -
  note f = moveaxis_order_three [OF lA lD dA dD bA bD]
  note b = moveaxis_order_three [OF lD lA dD dA bD bA]
  define FA where "FA = filter (\<lambda>a. a \<notin> set A) [0..<n]"
  define FD where "FD = filter (\<lambda>a. a \<notin> set D) [0..<n]"
  have key: "moveaxis_order n A D ! (moveaxis_order n D A ! r) = r \<and> moveaxis_order n D A ! r < n"
    if r: "r < n" for r
  proof (cases "r \<in> set A")
    case True
    then obtain i where i: "i < 3" "r = A ! i" using lA by (metis in_set_conv_nth)
    have "moveaxis_order n D A ! r = D ! i" using b(2) i by simp
    moreover have "D ! i < n" using bD i lD by simp
    ultimately show ?thesis using f(2) i by simp
  next
    case False
    define j where "j = length (filter (\<lambda>a. a \<notin> set A) [0..<r])"
    have br: "moveaxis_order n D A ! r = FD ! j" using b(3) False by (simp add: FD_def j_def)
    have "j < length FA" and FAj: "FA ! j = r"
      unfolding j_def FA_def using filter_upt_index [of "\<lambda>a. a \<notin> set A" r n] False r by simp_all
    moreover have "length FA = length FD"
      using length_filter_complement [OF dA bA] length_filter_complement [OF dD bD] lA lD
      by (simp add: FA_def FD_def)
    ultimately have jD: "j < length FD" by simp
    then have "FD ! j \<in> set FD" by (rule nth_mem)
    then have k: "FD ! j \<notin> set D" "FD ! j < n" by (simp_all add: FD_def)
    have "length (filter (\<lambda>a. a \<notin> set D) [0..<FD ! j]) = j"
      using filter_upt_count [of j "\<lambda>a. a \<notin> set D" n] jD by (simp add: FD_def)
    then have "moveaxis_order n A D ! (FD ! j) = FA ! j"
      using f(3) k(1) by (simp add: FA_def)
    then show ?thesis using br FAj k(2) by simp
  qed
  show "\<forall>r<n. moveaxis_order n A D ! (moveaxis_order n D A ! r) = r" using key by blast
  show "\<forall>r<n. moveaxis_order n D A ! r < n" using key by blast
qed

subsection \<open>Reshaping and the round trip\<close>

lemma normalize_three:
  assumes "a < n" "b < n" "c < n" "distinct [a, b, c]"
  shows "normalize_axis_tuple n [int a, int b, int c] = Inr [a, b, c]"
  using assms by (simp add: normalize_axis_tuple_def normalize_axis_index_def)

lemma normalize_front_back:
  assumes "3 \<le> n"
  shows "normalize_axis_tuple n [0, 1, - 1] = Inr [0, 1, n - 1]"
proof -
  have "nat (int n - 1) = n - 1" by simp
  then show ?thesis
    using assms by (simp add: normalize_axis_tuple_def normalize_axis_index_def)
qed

lemma filter_nonneg_int: "filter (\<lambda>d. 0 \<le> d) (map int s) = map int s"
  by (induction s) simp_all

lemma filter_minus_one_int: "filter (\<lambda>d. d = - 1) (map int s) = []"
  by (induction s) simp_all

lemma reshape_same_size:
  assumes "prod_list s = prod_list (shape m)"
  shows "reshape m (map int s) = Inr (m\<lparr>shape := s\<rparr>)"
proof -
  have "\<not> (\<exists>d \<in> set (map int s). d < - 1)" by auto
  moreover have "- 1 \<notin> set (map int s)" by auto
  moreover have "map nat (map int s) = s" by (simp add: comp_def)
  ultimately show ?thesis
    using assms unfolding reshape_def Let_def filter_nonneg_int filter_minus_one_int
    by simp
qed

lemma reshape_pack:
  assumes sh: "shape m = a # b # mid @ [c]" and nz: "a \<noteq> 0" "b \<noteq> 0" "c \<noteq> 0"
  shows "reshape m (map int (take 2 (shape m)) @ [- 1, int (last (shape m))])
           = Inr (m\<lparr>shape := [a, b, prod_list mid, c]\<rparr>)"
proof -
  have new: "map int (take 2 (shape m)) @ [- 1, int (last (shape m))] = [int a, int b, - 1, int c]"
    by (simp add: sh)
  have size: "prod_list (shape m) = (a * b * c) * prod_list mid" by (simp add: sh)
  have k: "a * b * c \<noteq> 0" using nz by simp
  show ?thesis
    unfolding new reshape_def Let_def size using k by simp
qed

lemma three_or_more:
  assumes "3 \<le> length s"
  shows "\<exists>a b mid c. s = a # b # mid @ [c]"
proof -
  obtain a s1 where s1: "s = a # s1" using assms by (cases s) auto
  then obtain b s2 where s2: "s1 = b # s2" using assms by (cases s1) auto
  then have "s2 \<noteq> []" using assms s1 by auto
  then obtain mid c where "s2 = mid @ [c]" by (metis rev_exhaust)
  with s1 s2 show ?thesis by blast
qed

lemma takeWhile_position:
  assumes "c \<in> set s"
  shows "str_find s c = int (length (takeWhile (\<lambda>d. d \<noteq> c) s))"
    and "length (takeWhile (\<lambda>d. d \<noteq> c) s) < length s"
    and "s ! length (takeWhile (\<lambda>d. d \<noteq> c) s) = c"
proof -
  show "str_find s c = int (length (takeWhile (\<lambda>d. d \<noteq> c) s))"
    using assms by (simp add: str_find_def)
  show l: "length (takeWhile (\<lambda>d. d \<noteq> c) s) < length s"
    using assms by (induction s) auto
  show "s ! length (takeWhile (\<lambda>d. d \<noteq> c) s) = c"
    using nth_length_takeWhile [OF l] by simp
qed

text \<open>
  C6 (amended): for a well-formed array with at least three dimensions and a dimension
  order that is no longer than the number of dimensions, contains \<open>x\<close>, \<open>y\<close> and
  \<open>z\<close>, finds them at the same positions with and without lower-casing, and whose
  three spatial axes are not empty, \<^verbatim>\<open>prepare_data\<close> returns and \<^verbatim>\<open>recover_data\<close>
  applied to its two results returns the original array, shape and content.
\<close>

theorem prepare_recover_round_trip:
  assumes wf: "wf dat" and nd: "3 \<le> ndim dat" and ld: "length dim_order \<le> ndim dat"
    and x: "CHR ''x'' \<in> set dim_order" and y: "CHR ''y'' \<in> set dim_order"
    and z: "CHR ''z'' \<in> set dim_order"
    and lowc: "\<forall>c \<in> set ''yxz''. str_find (lower dim_order) c = str_find dim_order c"
    and nz: "\<forall>c \<in> set ''yxz''. shape dat ! nat (str_find dim_order c) \<noteq> 0"
  shows "\<exists>packed info. prepare_data dat dim_order = Inr (packed, info)
           \<and> recover_data packed info = Inr dat"
proof -
  define n where "n = ndim dat"
  define fy where "fy = length (takeWhile (\<lambda>d. d \<noteq> CHR ''y'') dim_order)"
  define fx where "fx = length (takeWhile (\<lambda>d. d \<noteq> CHR ''x'') dim_order)"
  define fz where "fz = length (takeWhile (\<lambda>d. d \<noteq> CHR ''z'') dim_order)"
  note py = takeWhile_position [OF y, folded fy_def]
  note px = takeWhile_position [OF x, folded fx_def]
  note pz = takeWhile_position [OF z, folded fz_def]
  have bnd: "fy < n" "fx < n" "fz < n" using py(2) px(2) pz(2) ld by (simp_all add: n_def)
  have "fy \<noteq> fx" "fy \<noteq> fz" "fx \<noteq> fz" using py(3) px(3) pz(3) by auto
  then have dA: "distinct [fy, fx, fz]" by simp
  have n3: "3 \<le> n" using nd by (simp add: n_def)
  then have dD: "distinct [0, 1, n - 1]" by simp
  have bA: "\<forall>a \<in> set [fy, fx, fz]. a < n" using bnd by simp
  have bD: "\<forall>d \<in> set [0, 1, n - 1]. d < n" using n3 by simp
  define p1 where "p1 = moveaxis_order n [fy, fx, fz] [0, 1, n - 1]"
  define p2 where "p2 = moveaxis_order n [0, 1, n - 1] [fy, fx, fz]"
  define moved where "moved = transpose_axes dat p1"
  note fwd = moveaxis_order_three [of "[fy, fx, fz]" "[0, 1, n - 1]" n, OF _ _ dA dD bA bD,
      folded p1_def]
  have lp1: "length p1 = n" using fwd(1) by simp
  have at: "p1 ! 0 = fy" "p1 ! 1 = fx" "p1 ! (n - 1) = fz"
    using fwd(2) [simplified, rule_format, of 0] fwd(2) [simplified, rule_format, of 1]
      fwd(2) [simplified, rule_format, of 2] by simp_all
  have sm: "shape moved = map (\<lambda>ax. shape dat ! ax) p1"
    by (simp add: moved_def transpose_axes_def Let_def)
  have lm: "ndim moved = n" by (simp add: ndim_def sm lp1)
  then have "3 \<le> length (shape moved)" using n3 by (simp add: ndim_def)
  then obtain a b mid c where abc: "shape moved = a # b # mid @ [c]"
    using three_or_more by blast
  have "shape moved ! 0 = shape dat ! fy" "shape moved ! 1 = shape dat ! fx"
    "shape moved ! (n - 1) = shape dat ! fz"
    using n3 lp1 at by (simp_all add: sm)
  moreover have "last (shape moved) = shape moved ! (length (shape moved) - 1)"
    by (rule last_conv_nth) (simp add: abc)
  then have "shape moved ! (n - 1) = last (shape moved)" using lm by (simp add: ndim_def)
  then have "shape moved ! (n - 1) = c" by (simp add: abc)
  ultimately have "a = shape dat ! fy" "b = shape dat ! fx" "c = shape dat ! fz"
    by (simp_all add: abc)
  then have nzs: "a \<noteq> 0" "b \<noteq> 0" "c \<noteq> 0"
    using nz py(1) px(1) pz(1) by simp_all
  define packed where "packed = moved\<lparr>shape := [a, b, prod_list mid, c]\<rparr>"
  define info where "info = \<lparr>interm_shape = shape moved, origin_order = dim_order,
     output_order = ''yx('' @ filter (\<lambda>c. c \<noteq> CHR ''x'' \<and> c \<noteq> CHR ''y'' \<and> c \<noteq> CHR ''z'')
                                  dim_order @ '')z''\<rparr>"
  have sp1: "str_find (lower dim_order) CHR ''y'' = int fy"
    "str_find (lower dim_order) CHR ''x'' = int fx" "str_find (lower dim_order) CHR ''z'' = int fz"
    using lowc py(1) px(1) pz(1) by simp_all
  note sp2 = py(1) px(1) pz(1)
  have mv1: "moveaxis dat [int fy, int fx, int fz] [0, 1, - 1] = Inr moved"
    unfolding moveaxis_def n_def [symmetric] normalize_three [OF bnd dA] normalize_front_back [OF n3]
    by (simp add: moved_def p1_def)
  have rs1: "reshape moved (map int (take 2 (shape moved)) @ [- 1, int (last (shape moved))])
             = Inr packed"
    unfolding packed_def by (rule reshape_pack [OF abc nzs])
  have prep: "prepare_data dat dim_order = Inr (packed, info)"
    using nd ld x y z
    by (simp add: prepare_data_def sp1 mv1 Let_def rs1 info_def)
  have "prod_list (shape moved) = prod_list (shape packed)"
    by (simp add: packed_def abc)
  then have "reshape packed (map int (shape moved)) = Inr (packed\<lparr>shape := shape moved\<rparr>)"
    by (rule reshape_same_size)
  also have "packed\<lparr>shape := shape moved\<rparr> = moved" by (simp add: packed_def)
  finally have rs2: "reshape packed (map int (shape moved)) = Inr moved" .
  have mv2: "moveaxis moved [0, 1, - 1] [int fy, int fx, int fz] = Inr (transpose_axes moved p2)"
    unfolding moveaxis_def lm normalize_three [OF bnd dA] normalize_front_back [OF n3]
    by (simp add: p2_def)
  note inv1 = moveaxis_order_inverse [of "[0, 1, n - 1]" "[fy, fx, fz]" n, OF _ _ dD dA bD bA,
      folded p1_def p2_def]
  note inv2 = moveaxis_order_inverse [of "[fy, fx, fz]" "[0, 1, n - 1]" n, OF _ _ dA dD bA bD,
      folded p1_def p2_def]
  have lp2: "length p2 = n"
    using moveaxis_order_three(1) [of "[0, 1, n - 1]" "[fy, fx, fz]" n, OF _ _ dD dA bD bA]
    by (simp add: p2_def)
  have "transpose_axes (transpose_axes dat p1) p2 = dat"
    using wf lp1 lp2 inv1 inv2 by (intro transpose_axes_inverse) (simp_all add: n_def)
  then have tr: "transpose_axes moved p2 = dat" by (simp add: moved_def)
  have "recover_data packed info = Inr dat"
    by (simp add: recover_data_def rs2 Let_def info_def sp2 mv2 tr)
  with prep show ?thesis by blast
qed

theorem prepare_recover_round_trip_witness:
  "wf \<lparr>shape = [2, 3, 1, 2], data = [0 ..< 12]\<rparr>
   \<and> 3 \<le> ndim \<lparr>shape = [2, 3, 1, 2], data = [0 ..< 12]\<rparr>
   \<and> length ''tzyx'' \<le> ndim \<lparr>shape = [2, 3, 1, 2], data = [0 ..< 12]\<rparr>
   \<and> CHR ''x'' \<in> set ''tzyx'' \<and> CHR ''y'' \<in> set ''tzyx'' \<and> CHR ''z'' \<in> set ''tzyx''
   \<and> str_find (lower ''tzyx'') CHR ''y'' = str_find ''tzyx'' CHR ''y''
   \<and> str_find (lower ''tzyx'') CHR ''x'' = str_find ''tzyx'' CHR ''x''
   \<and> str_find (lower ''tzyx'') CHR ''z'' = str_find ''tzyx'' CHR ''z''
   \<and> shape \<lparr>shape = [2, 3, 1, 2], data = [0 ..< 12]\<rparr> ! nat (str_find ''tzyx'' CHR ''y'') = 1
   \<and> shape \<lparr>shape = [2, 3, 1, 2], data = [0 ..< 12]\<rparr> ! nat (str_find ''tzyx'' CHR ''x'') = 2
   \<and> shape \<lparr>shape = [2, 3, 1, 2], data = [0 ..< 12]\<rparr> ! nat (str_find ''tzyx'' CHR ''z'') = 3
   \<and> (\<exists>packed info. prepare_data \<lparr>shape = [2, 3, 1, 2], data = [0 ..< 12]\<rparr> ''tzyx'' = Inr (packed, info)
           \<and> recover_data packed info = Inr \<lparr>shape = [2, 3, 1, 2], data = [0 ..< 12]\<rparr>)"
  using prepare_recover_round_trip [of "\<lparr>shape = [2, 3, 1, 2], data = [0 ..< 12]\<rparr>" "''tzyx''"]
  by (simp add: wf_def ndim_def lower_def lower_char_def str_find_def)

text \<open>
  C6 (as the specification words it) fails: a three-dimensional array with the
  dimension order \<open>txyz\<close>, which contains \<open>x\<close>, \<open>y\<close> and \<open>z\<close>, is rejected by the
  length check of \<^verbatim>\<open>prepare_data\<close>, so there is nothing to recover.
\<close>

theorem prepare_data_rejects_long_dim_order:
  "3 \<le> ndim \<lparr>shape = [2, 3, 4], data = [0 ..< 24]\<rparr>
   \<and> CHR ''x'' \<in> set ''txyz'' \<and> CHR ''y'' \<in> set ''txyz'' \<and> CHR ''z'' \<in> set ''txyz''
   \<and> prepare_data \<lparr>shape = [2, 3, 4], data = [0 ..< 24]\<rparr> ''txyz''
       = Inl (ValueError ''Inconsistent number dimensions'')"
  by (simp add: prepare_data_def ndim_def)

text \<open>
  \<^verbatim>\<open>prepare_data\<close> looks the spatial axes up in the lower-cased dimension order,
  \<^verbatim>\<open>recover_data\<close> in the dimension order as given. With an upper-case \<open>X\<close> naming
  a further dimension in front of the longitude the two disagree, and a \<open>2 \<times> 3\<close> field
  comes back as \<open>3 \<times> 2\<close>.
\<close>

lemma prepare_recover_case_mismatch:
  "and_then (prepare_data \<lparr>shape = [2, 3, 1, 1], data = [0 ..< 6]\<rparr> ''Xxyz'')
     (\<lambda>(packed, info). recover_data packed info)
   = Inr \<lparr>shape = [3, 2, 1, 1], data = [0, 3, 1, 4, 2, 5]\<rparr>"
  by code_simp

end
